theory Spec2Isabelle
  imports Main
begin

section \<open>Python values used by the sheet combiner\<close>

text \<open>
  The program is \<^verbatim>\<open>src/app.py\<close>, class \<^verbatim>\<open>GoogleSheetsCombiner\<close>. Strings are
  lists of characters, each character read as a code point below 256. Exceptions are
  values: a function that can raise returns \<open>py_exn + 'a\<close>, with \<open>Inl\<close> for the
  exception. Messages shown through \<^verbatim>\<open>st.warning\<close>, \<^verbatim>\<open>st.error\<close> and
  \<^verbatim>\<open>st.info\<close> are collected, in program order, in a list of notices.
\<close>

datatype py_exn =
    HttpError nat
  | RequestException string
  | EmptyDataError
  | ParserError
  | ValueError string
  | IndexError
  | InvalidIndexError
  | OtherException string

text \<open>
  One constructor per message text of the source; the arguments are the values the
  f-string interpolates (an exception stands for its \<^verbatim>\<open>str(e)\<close>).
\<close>

datatype message =
    Sheet_is_empty string
  | Header_row_beyond_range int
  | Access_denied string
  | Sheet_not_found string
  | Api_error nat
  | Error_fetching string py_exn
  | Private_requires_auth string
  | Please_authenticate
  | Failed_to_fetch string
  | Error_processing string py_exn
  | Sheet_empty_or_inaccessible "string option"
  | Error_adding "string option" py_exn

datatype notice = St_warning message | St_error message | St_info message

text \<open>\<^verbatim>\<open>str.isspace\<close> on the code points below 256, and \<^verbatim>\<open>str.strip()\<close>.\<close>

definition py_isspace :: "char \<Rightarrow> bool" where
  "py_isspace c =
     (let n = (of_char c :: nat)
      in (9 \<le> n \<and> n \<le> 13) \<or> (28 \<le> n \<and> n \<le> 32) \<or> n = 133 \<or> n = 160)"

definition py_strip :: "string \<Rightarrow> string" where
  "py_strip s = rev (dropWhile py_isspace (rev (dropWhile py_isspace s)))"

text \<open>\<^verbatim>\<open>str(n)\<close> for a non-negative integer: its decimal digits.\<close>

fun str_nat :: "nat \<Rightarrow> string" where
  "str_nat n =
     (if n < 10 then [''0123456789'' ! n]
      else str_nat (n div 10) @ [''0123456789'' ! (n mod 10)])"

declare str_nat.simps [simp del]

text \<open>\<^verbatim>\<open>p in s\<close> on strings: \<open>p\<close> occurs in \<open>s\<close> as a contiguous substring.\<close>

fun py_in :: "string \<Rightarrow> string \<Rightarrow> bool" where
  "py_in p [] = (p = [])"
| "py_in p (c # cs) = (take (length p) (c # cs) = p \<or> py_in p cs)"

text \<open>\<^verbatim>\<open>x or default\<close> for an optional string: \<^verbatim>\<open>None\<close> and \<^verbatim>\<open>''\<close> are falsy.\<close>

fun py_truthy :: "string option \<Rightarrow> bool" where
  "py_truthy None = False"
| "py_truthy (Some s) = (s \<noteq> [])"

definition py_or :: "string option \<Rightarrow> string \<Rightarrow> string" where
  "py_or x dflt = (if py_truthy x then the x else dflt)"

text \<open>
  \<^verbatim>\<open>xs[i]\<close> and \<^verbatim>\<open>xs[i:]\<close> with Python's negative indices: an index out of range
  raises, a slice start out of range is clamped.
\<close>

definition py_index :: "'a list \<Rightarrow> int \<Rightarrow> py_exn + 'a" where
  "py_index xs i =
     (if 0 \<le> i \<and> i < int (length xs) then Inr (xs ! nat i)
      else if i < 0 \<and> - int (length xs) \<le> i then Inr (xs ! nat (int (length xs) + i))
      else Inl IndexError)"

definition py_slice_from :: "'a list \<Rightarrow> int \<Rightarrow> 'a list" where
  "py_slice_from xs i =
     (if 0 \<le> i then drop (nat i) xs else drop (nat (int (length xs) + i)) xs)"

section \<open>The pandas operations the program calls\<close>

text \<open>
  A \<^verbatim>\<open>DataFrame\<close> is its column labels and its rows; a row holds one cell per
  column, in column order. A cell is a text, an integer, a float, a boolean or the
  missing value \<^verbatim>\<open>NaN\<close>: the authenticated path builds frames of texts, and
  \<^verbatim>\<open>pd.read_csv\<close> (called without \<^verbatim>\<open>dtype\<close>) infers the other kinds. Floats are
  not computed with: a float is named by the integer it was converted from or by the
  text it was parsed from.
\<close>

datatype float64 = Float_of_int int | Float_of_text string

datatype cell = Str string | Integer int | Float float64 | Bool bool | NaN

record DataFrame =
  columns :: "string list"
  rows :: "cell list list"

definition pd_DataFrame_empty :: DataFrame where
  "pd_DataFrame_empty = \<lparr>columns = [], rows = []\<rparr>"

text \<open>\<^verbatim>\<open>df.empty\<close>: an axis has length 0.\<close>

definition df_empty :: "DataFrame \<Rightarrow> bool" where
  "df_empty df = (columns df = [] \<or> rows df = [])"

text \<open>
  \<^verbatim>\<open>pd.DataFrame(data, columns=cols)\<close> on a list of lists: no rows give an empty
  frame with the columns; otherwise the longest row must have as many cells as there
  are columns (shorter rows are filled with missing values), else pandas raises.
\<close>

definition pd_DataFrame :: "string list list \<Rightarrow> string list \<Rightarrow> py_exn + DataFrame" where
  "pd_DataFrame data cols =
     (if data = [] then Inr \<lparr>columns = cols, rows = []\<rparr>
      else if Max (set (map length data)) = length cols
      then Inr \<lparr>columns = cols,
                rows = map (\<lambda>r. map Str r @ replicate (length cols - length r) NaN) data\<rparr>
      else Inl (ValueError ''columns passed do not match the data''))"

text \<open>
  \<^verbatim>\<open>df[key] = v\<close> with a scalar: an existing column is overwritten in place, a new
  one is appended on the right.
\<close>

definition setitem :: "DataFrame \<Rightarrow> string \<Rightarrow> cell \<Rightarrow> DataFrame" where
  "setitem df key v =
     (if key \<in> set (columns df)
      then df\<lparr>rows := map (\<lambda>r. map (\<lambda>(c, x). if c = key then v else x) (zip (columns df) r))
                          (rows df)\<rparr>
      else df\<lparr>columns := columns df @ [key], rows := map (\<lambda>r. r @ [v]) (rows df)\<rparr>)"

text \<open>
  The dtype pandas holds for a column, read off its cells: \<^verbatim>\<open>int64\<close> when all are
  integers, \<^verbatim>\<open>float64\<close> when all are floats or missing, \<^verbatim>\<open>bool\<close> when all are
  booleans, \<^verbatim>\<open>object\<close> otherwise and for a column without rows (a frame without
  rows is never kept in \<^verbatim>\<open>sheets_data\<close>). \<open>find_common_type\<close> is the dtype of
  several columns put together (integers and floats give floats; booleans do not mix
  with numbers), \<open>ensure_dtype_can_hold_na\<close> the dtype after a missing value is added,
  and \<open>astype\<close> the conversion of a cell: only an integer cast to \<^verbatim>\<open>float64\<close>
  changes.
\<close>

datatype dtype = Int64 | Float64 | Boolean | Object

fun is_int_cell :: "cell \<Rightarrow> bool" where
  "is_int_cell (Integer n) = True"
| "is_int_cell x = False"

fun is_float_cell :: "cell \<Rightarrow> bool" where
  "is_float_cell (Float f) = True"
| "is_float_cell NaN = True"
| "is_float_cell x = False"

fun is_bool_cell :: "cell \<Rightarrow> bool" where
  "is_bool_cell (Bool b) = True"
| "is_bool_cell x = False"

definition dtype_of :: "cell list \<Rightarrow> dtype" where
  "dtype_of cells =
     (if cells = [] then Object
      else if list_all is_int_cell cells then Int64
      else if list_all is_float_cell cells then Float64
      else if list_all is_bool_cell cells then Boolean
      else Object)"

fun find_common_type :: "dtype list \<Rightarrow> dtype" where
  "find_common_type [] = Object"
| "find_common_type (k # ks) =
     (if list_all (\<lambda>k'. k' = k) ks then k
      else if list_all (\<lambda>k'. k' = Int64 \<or> k' = Float64) (k # ks) then Float64
      else Object)"

fun ensure_dtype_can_hold_na :: "dtype \<Rightarrow> dtype" where
  "ensure_dtype_can_hold_na Int64 = Float64"
| "ensure_dtype_can_hold_na Boolean = Object"
| "ensure_dtype_can_hold_na k = k"

fun astype :: "dtype \<Rightarrow> cell \<Rightarrow> cell" where
  "astype Float64 (Integer n) = Float (Float_of_int n)"
| "astype k x = x"

text \<open>
  \<^verbatim>\<open>pd.concat(frames, ignore_index=True)\<close>, outer join on the columns. When no frame
  has a duplicate label, the result's columns are the distinct labels in order of
  first appearance and every frame is reindexed to them: a label the frame lacks
  gives \<^verbatim>\<open>NaN\<close>, and a column is cast to the common dtype of the frames that have
  it, widened to hold \<^verbatim>\<open>NaN\<close> when some frame lacks it (so integers become floats
  there). Frames that share one list of labels with a duplicate in it are stacked
  position by position; any other frame with a duplicate label cannot be reindexed and
  pandas raises.
\<close>

fun first_seen :: "'a list \<Rightarrow> 'a list \<Rightarrow> 'a list" where
  "first_seen seen [] = []"
| "first_seen seen (x # xs) =
     (if x \<in> set seen then first_seen seen xs else x # first_seen (seen @ [x]) xs)"

fun index_of :: "'a \<Rightarrow> 'a list \<Rightarrow> nat option" where
  "index_of x [] = None"
| "index_of x (y # ys) = (if x = y then Some 0 else map_option Suc (index_of x ys))"

definition cell_at :: "string list \<Rightarrow> cell list \<Rightarrow> string \<Rightarrow> cell" where
  "cell_at cols r c =
     (case index_of c cols of
        None \<Rightarrow> NaN
      | Some i \<Rightarrow> if i < length r then r ! i else NaN)"

definition column_cells :: "DataFrame \<Rightarrow> string \<Rightarrow> cell list" where
  "column_cells df c = map (\<lambda>r. cell_at (columns df) r c) (rows df)"

definition concat_dtype :: "DataFrame list \<Rightarrow> string \<Rightarrow> dtype" where
  "concat_dtype frames c =
     (let common = find_common_type
                     (map (\<lambda>df. dtype_of (column_cells df c))
                          (filter (\<lambda>df. c \<in> set (columns df)) frames))
      in if list_ex (\<lambda>df. c \<notin> set (columns df)) frames
         then ensure_dtype_can_hold_na common else common)"

definition reindex :: "DataFrame list \<Rightarrow> string list \<Rightarrow> DataFrame \<Rightarrow> cell list list" where
  "reindex frames new_cols df =
     map (\<lambda>r. map (\<lambda>c. if c \<in> set (columns df)
                         then astype (concat_dtype frames c) (cell_at (columns df) r c)
                         else NaN)
                   new_cols)
         (rows df)"

definition cells_at_position :: "DataFrame \<Rightarrow> nat \<Rightarrow> cell list" where
  "cells_at_position df j = map (\<lambda>r. if j < length r then r ! j else NaN) (rows df)"

definition stack_same_columns :: "DataFrame list \<Rightarrow> cell list list" where
  "stack_same_columns frames =
     concat (map (\<lambda>df. map (\<lambda>r. map (\<lambda>(j, x).
                      astype (find_common_type
                                (map (\<lambda>df'. dtype_of (cells_at_position df' j)) frames)) x)
                    (zip [0..<length r] r))
                  (rows df))
             frames)"

definition pd_concat :: "DataFrame list \<Rightarrow> py_exn + DataFrame" where
  "pd_concat frames =
     (if frames = [] then Inl (ValueError ''No objects to concatenate'')
      else if list_all (\<lambda>df. distinct (columns df)) frames
      then (let new_cols = first_seen [] (concat (map columns frames))
            in Inr \<lparr>columns = new_cols,
                    rows = concat (map (reindex frames new_cols) frames)\<rparr>)
      else if list_all (\<lambda>df. columns df = columns (hd frames)) (tl frames)
      then Inr \<lparr>columns = columns (hd frames), rows = stack_same_columns frames\<rparr>
      else Inl InvalidIndexError)"

section \<open>Identifier extraction\<close>

text \<open>
  \<^verbatim>\<open>re.search(r'/spreadsheets/d/([a-zA-Z0-9-_]+)', url)\<close>: the leftmost position
  where the literal is followed by at least one character of the class; group 1 is
  the longest run of class characters there.
\<close>

definition id_char :: "char \<Rightarrow> bool" where
  "id_char c =
     (let n = (of_char c :: nat)
      in (97 \<le> n \<and> n \<le> 122) \<or> (65 \<le> n \<and> n \<le> 90) \<or> (48 \<le> n \<and> n \<le> 57)
         \<or> c = CHR ''-'' \<or> c = CHR ''_'')"

definition url_literal :: string where
  "url_literal = ''/spreadsheets/d/''"

definition match_here :: "string \<Rightarrow> string option" where
  "match_here s =
     (if take (length url_literal) s = url_literal
         \<and> takeWhile id_char (drop (length url_literal) s) \<noteq> []
      then Some (takeWhile id_char (drop (length url_literal) s))
      else None)"

fun re_search :: "string \<Rightarrow> string option" where
  "re_search [] = None"
| "re_search (c # cs) =
     (case match_here (c # cs) of Some g \<Rightarrow> Some g | None \<Rightarrow> re_search cs)"

definition extract_sheet_id :: "string \<Rightarrow> py_exn + string" where
  "extract_sheet_id url =
     (case re_search url of
        None \<Rightarrow> Inl (ValueError (''Invalid Google Sheets URL format: '' @ url))
      | Some g \<Rightarrow> Inr g)"

section \<open>Fetching one worksheet\<close>

text \<open>
  The header loop of the authenticated path (\<^verbatim>\<open>for i, header in enumerate(headers)\<close>):
  \<open>header_count\<close> is the dictionary, \<open>unique_headers\<close> the list being built.
\<close>

fun header_loop ::
  "nat \<Rightarrow> (string \<rightharpoonup> nat) \<Rightarrow> string list \<Rightarrow> string list \<Rightarrow> string list" where
  "header_loop i header_count unique_headers [] = unique_headers"
| "header_loop i header_count unique_headers (header # rest) =
     (let header = (if header = [] \<or> py_strip header = []
                    then ''Column_'' @ str_nat (i + 1) else header)
      in case header_count header of
           Some n \<Rightarrow>
             header_loop (i + 1) (header_count(header \<mapsto> n + 1))
               (unique_headers @ [header @ ''_'' @ str_nat (n + 1)]) rest
         | None \<Rightarrow>
             header_loop (i + 1) (header_count(header \<mapsto> 0)) (unique_headers @ [header]) rest)"

definition unique_headers_of :: "string list \<Rightarrow> string list" where
  "unique_headers_of headers = header_loop 0 Map.empty [] headers"

text \<open>The same loop on the public path, over the labels \<^verbatim>\<open>read_csv\<close> produced
  (\<open>None\<close> is a null label).\<close>

fun csv_header_loop ::
  "nat \<Rightarrow> (string \<rightharpoonup> nat) \<Rightarrow> string list \<Rightarrow> string option list \<Rightarrow> string list" where
  "csv_header_loop i header_count unique_headers [] = unique_headers"
| "csv_header_loop i header_count unique_headers (header # rest) =
     (let header_str = (case header of Some h \<Rightarrow> h | None \<Rightarrow> ''Column_'' @ str_nat (i + 1))
      in case header_count header_str of
           Some n \<Rightarrow>
             csv_header_loop (i + 1) (header_count(header_str \<mapsto> n + 1))
               (unique_headers @ [header_str @ ''_'' @ str_nat (n + 1)]) rest
         | None \<Rightarrow>
             csv_header_loop (i + 1) (header_count(header_str \<mapsto> 0))
               (unique_headers @ [header_str]) rest)"

definition max_cols_of :: "string list list \<Rightarrow> nat" where
  "max_cols_of vals = (if vals = [] then 0 else Max (set (map length vals)))"

definition pad_row :: "nat \<Rightarrow> string list \<Rightarrow> string list" where
  "pad_row max_cols row = row @ replicate (max_cols - length row) ''''"

definition padded_values_of :: "string list list \<Rightarrow> string list list" where
  "padded_values_of vals = map (pad_row (max_cols_of vals)) vals"

text \<open>
  The authenticated path from the padding to \<^verbatim>\<open>return df\<close>, for a non-empty value
  range: the notices it emits and the frame, or the exception raised inside the
  \<^verbatim>\<open>try\<close>.
\<close>

definition table_of_values ::
  "string list list \<Rightarrow> int \<Rightarrow> string \<Rightarrow> notice list \<times> (py_exn + DataFrame)" where
  "table_of_values vals header_row source =
     (let padded_values = padded_values_of vals;
          beyond = (header_row - 1 \<ge> int (length padded_values));
          notes = (if beyond then [St_error (Header_row_beyond_range header_row)] else []);
          header_idx = (if beyond then 0 else header_row - 1)
      in case (if header_idx < int (length padded_values)
               then py_index padded_values header_idx else Inr []) of
           Inl e \<Rightarrow> (notes, Inl e)
         | Inr headers \<Rightarrow>
             (let unique_headers = unique_headers_of headers;
                  data_start_idx = header_idx + 1;
                  data = (if data_start_idx < int (length padded_values)
                          then py_slice_from padded_values data_start_idx else [])
              in case pd_DataFrame data unique_headers of
                   Inl e \<Rightarrow> (notes, Inl e)
                 | Inr df \<Rightarrow> (notes, Inr (setitem df ''_source_sheet'' (Str source)))))"

text \<open>
  The collaborators. A sheets service answers
  \<^verbatim>\<open>spreadsheets().values().get(spreadsheetId, range, majorDimension='ROWS').execute()\<close>
  with the rows under \<^verbatim>\<open>'values'\<close> (none when the key is absent) or raises.
  \<open>requests_get\<close> is \<^verbatim>\<open>requests.get(url, timeout=30)\<close> followed by
  \<^verbatim>\<open>raise_for_status()\<close>, giving \<^verbatim>\<open>response.text\<close>; \<open>pd_read_csv\<close> is
  \<^verbatim>\<open>pd.read_csv(io.StringIO(text), header=h)\<close>, giving column labels and rows.
\<close>

type_synonym sheets_service = "string \<Rightarrow> string \<Rightarrow> py_exn + string list list"

record externals =
  requests_get :: "string \<Rightarrow> py_exn + string"
  pd_read_csv :: "string \<Rightarrow> int \<Rightarrow> py_exn + (string option list \<times> cell list list)"

definition source_sheet :: "string \<Rightarrow> string option \<Rightarrow> string \<Rightarrow> string" where
  "source_sheet sheet_id sheet_name gid =
     py_or sheet_name (''Sheet_'' @ sheet_id @ ''_gid'' @ gid)"

text \<open>The A1 range of the authenticated request and the URL of the public one.\<close>

definition range_name_of :: "string option \<Rightarrow> string" where
  "range_name_of sheet_name =
     (if py_truthy sheet_name then [CHR 0x27] @ the sheet_name @ [CHR 0x27] else ''Sheet1'')"

definition csv_url_of :: "string \<Rightarrow> string \<Rightarrow> string" where
  "csv_url_of sheet_id gid =
     ''https://docs.google.com/spreadsheets/d/'' @ sheet_id @ ''/export?format=csv&gid='' @ gid"

definition fetch_authenticated ::
  "sheets_service \<Rightarrow> string \<Rightarrow> string option \<Rightarrow> string \<Rightarrow> int
     \<Rightarrow> notice list \<times> (py_exn + DataFrame)" where
  "fetch_authenticated service sheet_id sheet_name gid header_row =
     (let range_name = range_name_of sheet_name;
          shown = py_or sheet_name ''Sheet1'';
          (notes, body) =
            (case service sheet_id range_name of
               Inl e \<Rightarrow> ([], Inl e)
             | Inr vals \<Rightarrow>
                 if vals = [] then ([St_warning (Sheet_is_empty shown)], Inr pd_DataFrame_empty)
                 else table_of_values vals header_row (source_sheet sheet_id sheet_name gid))
      in case body of
           Inr df \<Rightarrow> (notes, Inr df)
         | Inl (HttpError status) \<Rightarrow>
             (notes @ [St_error (if status = 403 then Access_denied shown
                                 else if status = 404 then Sheet_not_found shown
                                 else Api_error status)],
              Inr pd_DataFrame_empty)
         | Inl e \<Rightarrow> (notes @ [St_error (Error_fetching shown e)], Inr pd_DataFrame_empty))"

definition fetch_public ::
  "externals \<Rightarrow> string \<Rightarrow> string option \<Rightarrow> string \<Rightarrow> int
     \<Rightarrow> notice list \<times> (py_exn + DataFrame)" where
  "fetch_public ext sheet_id sheet_name gid header_row =
     (let csv_url = csv_url_of sheet_id gid;
          shown = py_or sheet_name ''Sheet1'';
          body =
            (case requests_get ext csv_url of
               Inl e \<Rightarrow> Inl e
             | Inr response_text \<Rightarrow>
                 if take (length ''<!DOCTYPE html>'') (py_strip response_text) = ''<!DOCTYPE html>''
                 then Inl (ValueError
                   ''Sheet may not be publicly accessible. Received HTML instead of CSV.'')
                 else (case pd_read_csv ext response_text (header_row - 1) of
                         Inl e \<Rightarrow> Inl e
                       | Inr (labels, rs) \<Rightarrow>
                           Inr (setitem \<lparr>columns = csv_header_loop 0 Map.empty [] labels,
                                         rows = rs\<rparr>
                                  ''_source_sheet''
                                  (Str (source_sheet sheet_id sheet_name gid)))))
      in case body of
           Inr df \<Rightarrow> ([], Inr df)
         | Inl (RequestException m) \<Rightarrow>
             (if py_in ''401'' m \<or> py_in ''Unauthorized'' m
              then [St_error (Private_requires_auth shown), St_info Please_authenticate]
              else [St_error (Failed_to_fetch m)],
              Inr pd_DataFrame_empty)
         | Inl EmptyDataError \<Rightarrow> ([St_warning (Sheet_is_empty shown)], Inr pd_DataFrame_empty)
         | Inl e \<Rightarrow> ([St_error (Error_processing shown e)], Inr pd_DataFrame_empty))"

text \<open>
  \<^verbatim>\<open>fetch_sheet_data\<close>: the authenticated path when a service is held, the public
  CSV export otherwise. The statements after the two \<^verbatim>\<open>if\<close> blocks are never
  reached, since each block returns on every path.
\<close>

definition fetch_sheet_data ::
  "externals \<Rightarrow> sheets_service option \<Rightarrow> string \<Rightarrow> string option \<Rightarrow> string \<Rightarrow> int
     \<Rightarrow> notice list \<times> (py_exn + DataFrame)" where
  "fetch_sheet_data ext sheets_service sheet_id sheet_name gid header_row =
     (case sheets_service of
        Some service \<Rightarrow> fetch_authenticated service sheet_id sheet_name gid header_row
      | None \<Rightarrow> fetch_public ext sheet_id sheet_name gid header_row)"

section \<open>The combiner\<close>

text \<open>
  A worksheet descriptor (the dictionary with keys \<^verbatim>\<open>gid\<close> and \<^verbatim>\<open>name\<close> that
  \<^verbatim>\<open>get_sheet_info\<close> builds), an entry of \<^verbatim>\<open>sheets_data\<close> (keys \<^verbatim>\<open>id\<close>,
  \<^verbatim>\<open>gid\<close>, \<^verbatim>\<open>name\<close>, \<^verbatim>\<open>display_name\<close>, \<^verbatim>\<open>data\<close>, \<^verbatim>\<open>header_row\<close>)
  and the object's attributes.
\<close>

record sheet_info =
  info_gid :: string
  info_name :: "string option"

record sheet_entry =
  entry_id :: string
  entry_gid :: string
  entry_name :: "string option"
  entry_display_name :: "string option"
  entry_data :: DataFrame
  entry_header_row :: int

record combiner =
  sheets_data :: "sheet_entry list"
  combined_data :: DataFrame
  sheets_service :: "sheets_service option"

definition init_combiner :: combiner where
  "init_combiner = \<lparr>sheets_data = [], combined_data = pd_DataFrame_empty, sheets_service = None\<rparr>"

definition add_sheet ::
  "externals \<Rightarrow> combiner \<Rightarrow> string \<Rightarrow> sheet_info \<Rightarrow> int \<Rightarrow> string option
     \<Rightarrow> notice list \<times> combiner \<times> bool" where
  "add_sheet ext self sheet_id info header_row custom_name =
     (let sheet_name = info_name info;
          gid = info_gid info
      in case fetch_sheet_data ext (sheets_service self) sheet_id sheet_name gid header_row of
           (notes, Inl e) \<Rightarrow> (notes @ [St_error (Error_adding sheet_name e)], self, False)
         | (notes, Inr df) \<Rightarrow>
             if \<not> df_empty df
             then (let display_name = (if py_truthy custom_name then custom_name else sheet_name)
                   in (notes,
                       self\<lparr>sheets_data := sheets_data self @
                              [\<lparr>entry_id = sheet_id, entry_gid = gid, entry_name = sheet_name,
                                entry_display_name = display_name, entry_data = df,
                                entry_header_row = header_row\<rparr>]\<rparr>,
                       True))
             else (notes @ [St_warning (Sheet_empty_or_inaccessible sheet_name)], self, False))"

text \<open>Removal is \<^verbatim>\<open>sheets_data.pop(i)\<close>, done by the page on the object's list.\<close>

definition py_pop :: "'a list \<Rightarrow> int \<Rightarrow> py_exn + 'a list" where
  "py_pop xs i =
     (if 0 \<le> i \<and> i < int (length xs) then Inr (take (nat i) xs @ drop (nat i + 1) xs)
      else if i < 0 \<and> - int (length xs) \<le> i
      then Inr (take (nat (int (length xs) + i)) xs @ drop (nat (int (length xs) + i) + 1) xs)
      else Inl IndexError)"

definition remove_sheet :: "combiner \<Rightarrow> int \<Rightarrow> py_exn + combiner" where
  "remove_sheet self i =
     (case py_pop (sheets_data self) i of
        Inl e \<Rightarrow> Inl e
      | Inr remaining \<Rightarrow> Inr (self\<lparr>sheets_data := remaining\<rparr>))"

definition combine_sheets :: "combiner \<Rightarrow> py_exn + (combiner \<times> DataFrame)" where
  "combine_sheets self =
     (if sheets_data self = [] then Inl (ValueError ''No sheets added yet.'')
      else (case pd_concat (map entry_data (sheets_data self)) of
              Inl e \<Rightarrow> Inl e
            | Inr combined \<Rightarrow> Inr (self\<lparr>combined_data := combined\<rparr>, combined)))"

text \<open>
  \<^verbatim>\<open>get_summary\<close>. Nothing in its \<^verbatim>\<open>try\<close> raises on a frame and a list, so the
  \<^verbatim>\<open>except\<close> branch is not a case of the model.
\<close>

record sheet_stat =
  stat_name :: "string option"
  stat_rows :: nat
  stat_header_row :: int

record summary =
  summary_columns :: "string list"
  total_rows :: nat
  total_columns :: nat
  sheets :: "sheet_stat list"

definition get_summary :: "combiner \<Rightarrow> summary" where
  "get_summary self =
     \<lparr>summary_columns = columns (combined_data self),
      total_rows = length (rows (combined_data self)),
      total_columns = length (columns (combined_data self)),
      sheets = map (\<lambda>sheet. \<lparr>stat_name = entry_display_name sheet,
                               stat_rows = length (rows (entry_data sheet)),
                               stat_header_row = entry_header_row sheet\<rparr>)
                   (sheets_data self)\<rparr>"

section \<open>The specification's wording, for comparison\<close>

text \<open>
  Header normalisation as the specification words it: first every blank or
  whitespace-only cell at 1-based position \<open>i\<close> becomes \<open>Column_i\<close>; then, left to
  right, a name seen \<open>k\<close> times before gets the suffix \<open>_k\<close>, and a name not seen
  before is kept.
\<close>

definition spec_fill_blank :: "string list \<Rightarrow> string list" where
  "spec_fill_blank hs =
     map (\<lambda>(i, h). if list_all py_isspace h then ''Column_'' @ str_nat (i + 1) else h)
         (zip [0..<length hs] hs)"

fun spec_dedup_from :: "string list \<Rightarrow> string list \<Rightarrow> string list" where
  "spec_dedup_from seen [] = []"
| "spec_dedup_from seen (n # ns) =
     (if count_list seen n = 0 then n else n @ ''_'' @ str_nat (count_list seen n))
       # spec_dedup_from (seen @ [n]) ns"

definition spec_dedup :: "string list \<Rightarrow> string list" where
  "spec_dedup ns = spec_dedup_from [] ns"

text \<open>
  Identifier extraction as the specification words it: the pattern is the segment
  \<^verbatim>\<open>/spreadsheets/d/<id>/\<close>, closing slash included.
\<close>

definition spec_match_here :: "string \<Rightarrow> string option" where
  "spec_match_here s =
     (let run = takeWhile id_char (drop (length url_literal) s);
          after = dropWhile id_char (drop (length url_literal) s)
      in if take (length url_literal) s = url_literal \<and> run \<noteq> [] \<and> take 1 after = ''/''
         then Some run else None)"

fun spec_search :: "string \<Rightarrow> string option" where
  "spec_search [] = None"
| "spec_search (c # cs) =
     (case spec_match_here (c # cs) of Some g \<Rightarrow> Some g | None \<Rightarrow> spec_search cs)"

definition spec_extract_id :: "string \<Rightarrow> py_exn + string" where
  "spec_extract_id url =
     (case spec_search url of
        None \<Rightarrow> Inl (ValueError (''Invalid Google Sheets URL format: '' @ url))
      | Some g \<Rightarrow> Inr g)"

section \<open>Notions used in the proofs\<close>

text \<open>
  The blank-filling of the header loop started at position \<open>i\<close>, and the loop
  invariant tying the dictionary \<open>header_count\<close> to the names seen so far: a name
  seen \<open>k + 1\<close> times is mapped to \<open>k\<close>, any other name is absent.
\<close>

definition fill_from :: "nat \<Rightarrow> string list \<Rightarrow> string list" where
  "fill_from i hs =
     map (\<lambda>(j, h). if list_all py_isspace h then ''Column_'' @ str_nat (j + 1) else h)
         (zip [i..<i + length hs] hs)"

definition counts_ok :: "(string \<rightharpoonup> nat) \<Rightarrow> string list \<Rightarrow> bool" where
  "counts_ok header_count seen =
     (\<forall>x. header_count x = (if count_list seen x = 0 then None else Some (count_list seen x - 1)))"

text \<open>
  For a header row \<open>header_row \<ge> 1\<close> on a non-empty value range: the 0-based index of
  the row used as header (row 1 when \<open>header_row\<close> lies beyond the rows), and the
  frame the authenticated path builds from it, in closed form.
\<close>

definition header_position :: "string list list \<Rightarrow> int \<Rightarrow> nat" where
  "header_position vals header_row =
     (if int (length vals) < header_row then 0 else nat (header_row - 1))"

definition normalized_table :: "string list list \<Rightarrow> int \<Rightarrow> string \<Rightarrow> DataFrame" where
  "normalized_table vals header_row source =
     setitem
       \<lparr>columns = unique_headers_of (padded_values_of vals ! header_position vals header_row),
        rows = map (map Str)
                 (drop (Suc (header_position vals header_row)) (padded_values_of vals))\<rparr>
       ''_source_sheet'' (Str source)"

text \<open>
  Concrete collaborators for the examples: a service whose every range holds the same
  rows, and externals whose every request is answered with the same body and whose
  CSV reader gives the same result.
\<close>

definition fixed_service :: "string list list \<Rightarrow> sheets_service" where
  "fixed_service vals = (\<lambda>sheet_id range_name. Inr vals)"

definition fixed_externals ::
  "string \<Rightarrow> py_exn + (string option list \<times> cell list list) \<Rightarrow> externals" where
  "fixed_externals body parsed =
     \<lparr>requests_get = (\<lambda>url. Inr body), pd_read_csv = (\<lambda>response_text h. parsed)\<rparr>"

text \<open>
  A frame as pandas keeps it after a fetch that met no duplicate header: distinct
  column labels and one cell per column in every row.
\<close>

definition frame_ok :: "DataFrame \<Rightarrow> bool" where
  "frame_ok df = (distinct (columns df) \<and> list_all (\<lambda>r. length r = length (columns df)) (rows df))"

text \<open>
  Two entries with the column sets of the specification's scenario, and the public
  channel answering with a two-line CSV that the reader parses into one row.
\<close>

definition example_sheet_AB :: sheet_entry where
  "example_sheet_AB =
     \<lparr>entry_id = ''doc'', entry_gid = ''0'', entry_name = Some ''S1'',
      entry_display_name = Some ''S1'',
      entry_data = \<lparr>columns = [''A'', ''B''], rows = [[Str ''1'', Str ''2'']]\<rparr>,
      entry_header_row = 1\<rparr>"

definition example_sheet_BC :: sheet_entry where
  "example_sheet_BC =
     \<lparr>entry_id = ''doc'', entry_gid = ''7'', entry_name = Some ''S2'',
      entry_display_name = Some ''S2'',
      entry_data = \<lparr>columns = [''B'', ''C''], rows = [[Str ''3'', Str ''4'']]\<rparr>,
      entry_header_row = 1\<rparr>"

text \<open>
  Two entries as the public channel yields them: \<^verbatim>\<open>read_csv\<close> has inferred integer
  columns, and the fetch has added the provenance.
\<close>

definition example_public_AB :: sheet_entry where
  "example_public_AB =
     \<lparr>entry_id = ''doc'', entry_gid = ''0'', entry_name = Some ''S1'',
      entry_display_name = Some ''S1'',
      entry_data = \<lparr>columns = [''A'', ''B'', ''_source_sheet''],
                     rows = [[Integer 1, Integer 2, Str ''S1'']]\<rparr>,
      entry_header_row = 1\<rparr>"

definition example_public_BC :: sheet_entry where
  "example_public_BC =
     \<lparr>entry_id = ''doc'', entry_gid = ''7'', entry_name = Some ''S2'',
      entry_display_name = Some ''S2'',
      entry_data = \<lparr>columns = [''B'', ''C'', ''_source_sheet''],
                     rows = [[Integer 3, Integer 4, Str ''S2'']]\<rparr>,
      entry_header_row = 1\<rparr>"

definition example_csv_body :: string where
  "example_csv_body = ''A,B'' @ [CHR 0x0A] @ ''1,2'' @ [CHR 0x0A]"

definition example_csv_externals :: externals where
  "example_csv_externals =
     fixed_externals example_csv_body (Inr ([Some ''A'', Some ''B''], [[Integer 1, Integer 2]]))"

section \<open>Header normalisation\<close>

lemma dropWhile_all_iff: "dropWhile P xs = [] \<longleftrightarrow> (\<forall>x\<in>set xs. P x)"
  by (induction xs) auto

lemma dropWhile_rest_all_iff:
  "(\<forall>x\<in>set (dropWhile P xs). P x) \<longleftrightarrow> (\<forall>x\<in>set xs. P x)"
  by (induction xs) auto

lemma py_strip_Nil_iff: "py_strip h = [] \<longleftrightarrow> list_all py_isspace h"
proof -
  have "py_strip h = [] \<longleftrightarrow> dropWhile py_isspace (rev (dropWhile py_isspace h)) = []"
    by (simp add: py_strip_def)
  also have "\<dots> \<longleftrightarrow> (\<forall>x\<in>set (dropWhile py_isspace h). py_isspace x)"
    by (simp only: dropWhile_all_iff set_rev)
  also have "\<dots> \<longleftrightarrow> list_all py_isspace h"
    by (simp only: dropWhile_rest_all_iff list_all_iff)
  finally show ?thesis .
qed

lemma blank_test_iff: "(h = [] \<or> py_strip h = []) \<longleftrightarrow> list_all py_isspace h"
  by (auto simp: py_strip_Nil_iff)

lemma fill_from_Nil: "fill_from i [] = []"
  by (simp add: fill_from_def)

lemma fill_from_Cons:
  "fill_from i (h # hs) =
     (if list_all py_isspace h then ''Column_'' @ str_nat (i + 1) else h) # fill_from (Suc i) hs"
  by (simp add: fill_from_def upt_conv_Cons del: upt_Suc)

lemma counts_ok_step_new:
  "counts_ok hc seen \<Longrightarrow> hc n = None \<Longrightarrow> counts_ok (hc(n \<mapsto> 0)) (seen @ [n])"
  by (auto simp: counts_ok_def split: if_splits)

lemma counts_ok_step_old:
  "counts_ok hc seen \<Longrightarrow> hc n = Some k \<Longrightarrow> counts_ok (hc(n \<mapsto> k + 1)) (seen @ [n])"
  apply (auto simp: counts_ok_def split: if_splits)
  done

lemma header_loop_spec:
  "counts_ok hc seen \<Longrightarrow>
     header_loop i hc acc hs = acc @ spec_dedup_from seen (fill_from i hs)"
proof (induction hs arbitrary: i hc acc seen)
  case Nil
  then show ?case by (simp add: fill_from_Nil)
next
  case (Cons h hs)
  define n where "n = (if list_all py_isspace h then ''Column_'' @ str_nat (i + 1) else h)"
  have n_eq: "(if h = [] \<or> py_strip h = [] then ''Column_'' @ str_nat (i + 1) else h) = n"
    unfolding n_def using blank_test_iff [of h] by simp
  have hc_n: "hc n = (if count_list seen n = 0 then None else Some (count_list seen n - 1))"
    using Cons.prems by (simp add: counts_ok_def)
  show ?case
  proof (cases "hc n")
    case None
    then have c0: "count_list seen n = 0" using hc_n by (simp split: if_splits)
    have ok: "counts_ok (hc(n \<mapsto> 0)) (seen @ [n])"
      using Cons.prems None by (rule counts_ok_step_new)
    have "header_loop i hc acc (h # hs) = header_loop (Suc i) (hc(n \<mapsto> 0)) (acc @ [n]) hs"
      using None by (simp add: n_eq)
    also have "\<dots> = (acc @ [n]) @ spec_dedup_from (seen @ [n]) (fill_from (Suc i) hs)"
      by (rule Cons.IH [OF ok])
    also have "\<dots> = acc @ spec_dedup_from seen (fill_from i (h # hs))"
      using c0 by (simp add: fill_from_Cons n_def)
    finally show ?thesis .
  next
    case (Some k)
    then have ck: "count_list seen n = k + 1" using hc_n by (simp split: if_splits)
    have ok: "counts_ok (hc(n \<mapsto> k + 1)) (seen @ [n])"
      using Cons.prems Some by (rule counts_ok_step_old)
    have "header_loop i hc acc (h # hs) =
            header_loop (Suc i) (hc(n \<mapsto> k + 1)) (acc @ [n @ ''_'' @ str_nat (k + 1)]) hs"
      using Some by (simp add: n_eq)
    also have "\<dots> = (acc @ [n @ ''_'' @ str_nat (k + 1)])
                        @ spec_dedup_from (seen @ [n]) (fill_from (Suc i) hs)"
      by (rule Cons.IH [OF ok])
    also have "\<dots> = acc @ spec_dedup_from seen (fill_from i (h # hs))"
      using ck by (simp add: fill_from_Cons n_def)
    finally show ?thesis .
  qed
qed

lemma unique_headers_refines:
  "unique_headers_of hs = spec_dedup (spec_fill_blank hs)"
proof -
  have "counts_ok Map.empty []" by (simp add: counts_ok_def)
  then have "header_loop 0 Map.empty [] hs = [] @ spec_dedup_from [] (fill_from 0 hs)"
    by (rule header_loop_spec)
  then show ?thesis
    by (simp add: unique_headers_of_def spec_dedup_def spec_fill_blank_def fill_from_def)
qed

lemma spec_fill_blank_id:
  "\<forall>h\<in>set hs. \<not> list_all py_isspace h \<Longrightarrow> spec_fill_blank hs = hs"
proof -
  assume a: "\<forall>h\<in>set hs. \<not> list_all py_isspace h"
  have "spec_fill_blank hs = map snd (zip [0..<length hs] hs)"
    unfolding spec_fill_blank_def using a
    by (intro map_cong refl) (auto dest: set_zip_rightD)
  then show ?thesis by simp
qed

lemma spec_dedup_from_id:
  "distinct ns \<Longrightarrow> set seen \<inter> set ns = {} \<Longrightarrow> spec_dedup_from seen ns = ns"
proof (induction ns arbitrary: seen)
  case Nil
  then show ?case by simp
next
  case (Cons n ns)
  then have "count_list seen n = 0" by (simp add: count_list_0_iff)
  moreover have "spec_dedup_from (seen @ [n]) ns = ns"
    using Cons.prems by (intro Cons.IH) auto
  ultimately show ?case by simp
qed

text \<open>
  Claim C2. On the authenticated path the header loop computes what the specification
  describes: it equals blank-filling (a blank or whitespace-only cell at 1-based
  position \<open>i\<close> becomes \<open>Column_i\<close>) followed by left-to-right deduplication (a
  name seen \<open>k\<close> times before gets the suffix \<open>_k\<close>, a new name is kept). The
  headers A, A, blank, A become A, A_1, Column_3, A_2. On a list of distinct non-blank
  names both the deduplication and the whole loop return the list unchanged.
\<close>

theorem header_normalisation:
  "unique_headers_of hs = spec_dedup (spec_fill_blank hs)
   \<and> unique_headers_of [''A'', ''A'', '''', ''A''] = [''A'', ''A_1'', ''Column_3'', ''A_2'']
   \<and> (distinct hs \<and> (\<forall>h\<in>set hs. \<not> list_all py_isspace h)
        \<longrightarrow> spec_dedup hs = hs \<and> unique_headers_of hs = hs)"
proof (intro conjI impI)
  show "unique_headers_of hs = spec_dedup (spec_fill_blank hs)"
    by (rule unique_headers_refines)
  show "unique_headers_of [''A'', ''A'', '''', ''A''] = [''A'', ''A_1'', ''Column_3'', ''A_2'']"
    by code_simp
next
  assume a: "distinct hs \<and> (\<forall>h\<in>set hs. \<not> list_all py_isspace h)"
  then show d: "spec_dedup hs = hs"
    by (simp add: spec_dedup_def spec_dedup_from_id)
  from a have "spec_fill_blank hs = hs" by (simp add: spec_fill_blank_id)
  with d show "unique_headers_of hs = hs" by (simp add: unique_headers_refines)
qed

theorem header_normalisation_witness:
  "unique_headers_of [''Name'', ''Age''] = [''Name'', ''Age'']
   \<and> spec_dedup [''Name'', ''Age''] = [''Name'', ''Age'']"
proof -
  have h: "distinct [''Name'', ''Age''] \<and> (\<forall>h\<in>set [''Name'', ''Age'']. \<not> list_all py_isspace h)"
    by (simp add: py_isspace_def)
  from header_normalisation [of "[''Name'', ''Age'']"] h show ?thesis
    by blast
qed


section \<open>Identifier extraction: the pattern\<close>

lemma takeWhile_stop: "rest = [] \<or> \<not> P (hd rest) \<Longrightarrow> takeWhile P rest = []"
  by (cases rest) auto

lemma match_here_Some_iff:
  "match_here s = Some g \<longleftrightarrow>
     (\<exists>rest. s = url_literal @ g @ rest \<and> g \<noteq> [] \<and> list_all id_char g
             \<and> (rest = [] \<or> \<not> id_char (hd rest)))"
proof
  assume m: "match_here s = Some g"
  let ?n = "length url_literal"
  from m have lit: "take ?n s = url_literal"
    and g: "g = takeWhile id_char (drop ?n s)" and ne: "g \<noteq> []"
    by (auto simp: match_here_def split: if_splits)
  let ?rest = "dropWhile id_char (drop ?n s)"
  have "s = take ?n s @ drop ?n s" by simp
  also have "drop ?n s = g @ ?rest" by (simp add: g)
  finally have "s = url_literal @ g @ ?rest" by (simp add: lit)
  moreover have "list_all id_char g"
    by (auto simp: g list_all_iff dest: set_takeWhileD)
  moreover have "?rest = [] \<or> \<not> id_char (hd ?rest)"
    by (metis hd_dropWhile)
  ultimately show "\<exists>rest. s = url_literal @ g @ rest \<and> g \<noteq> [] \<and> list_all id_char g
             \<and> (rest = [] \<or> \<not> id_char (hd rest))"
    using ne by blast
next
  assume "\<exists>rest. s = url_literal @ g @ rest \<and> g \<noteq> [] \<and> list_all id_char g
             \<and> (rest = [] \<or> \<not> id_char (hd rest))"
  then obtain rest where s: "s = url_literal @ g @ rest" and ne: "g \<noteq> []"
    and all: "list_all id_char g" and stop: "rest = [] \<or> \<not> id_char (hd rest)"
    by blast
  have "takeWhile id_char (g @ rest) = g"
    using all takeWhile_stop [of rest id_char, OF stop]
    by (simp add: list_all_iff takeWhile_append2)
  then show "match_here s = Some g"
    using ne by (simp add: match_here_def s)
qed

lemma match_here_None_iff:
  "match_here s = None \<longleftrightarrow> \<not> (\<exists>c t. s = url_literal @ c # t \<and> id_char c)"
proof -
  let ?n = "length url_literal"
  have "match_here s \<noteq> None \<longleftrightarrow> (\<exists>c t. s = url_literal @ c # t \<and> id_char c)"
  proof
    assume "match_here s \<noteq> None"
    then obtain g where "match_here s = Some g" by auto
    then obtain rest where "s = url_literal @ g @ rest" "g \<noteq> []" "list_all id_char g"
      using match_here_Some_iff by blast
    then show "\<exists>c t. s = url_literal @ c # t \<and> id_char c"
      by (cases g) auto
  next
    assume "\<exists>c t. s = url_literal @ c # t \<and> id_char c"
    then obtain c t where "s = url_literal @ c # t" "id_char c" by blast
    then show "match_here s \<noteq> None"
      by (simp add: match_here_def)
  qed
  then show ?thesis by blast
qed

lemma re_search_Some_iff:
  "re_search url = Some g \<longleftrightarrow>
     (\<exists>i\<le>length url. match_here (drop i url) = Some g
                        \<and> (\<forall>j<i. match_here (drop j url) = None))"
proof (induction url)
  case Nil
  then show ?case by (simp add: match_here_def url_literal_def)
next
  case (Cons c cs)
  show ?case
  proof (cases "match_here (c # cs)")
    case (Some g')
    have "(\<exists>i\<le>length (c # cs). match_here (drop i (c # cs)) = Some g
             \<and> (\<forall>j<i. match_here (drop j (c # cs)) = None)) \<longleftrightarrow> g' = g"
    proof
      assume "\<exists>i\<le>length (c # cs). match_here (drop i (c # cs)) = Some g
             \<and> (\<forall>j<i. match_here (drop j (c # cs)) = None)"
      then obtain i where i: "match_here (drop i (c # cs)) = Some g"
        and least: "\<forall>j<i. match_here (drop j (c # cs)) = None" by blast
      have "i = 0"
      proof (rule ccontr)
        assume "i \<noteq> 0"
        then have "match_here (drop 0 (c # cs)) = None" using least by blast
        with Some show False by simp
      qed
      with i Some show "g' = g" by simp
    next
      assume "g' = g"
      with Some have "match_here (drop 0 (c # cs)) = Some g
          \<and> (\<forall>j<0. match_here (drop j (c # cs)) = None)" by simp
      then show "\<exists>i\<le>length (c # cs). match_here (drop i (c # cs)) = Some g
             \<and> (\<forall>j<i. match_here (drop j (c # cs)) = None)" by blast
    qed
    with Some show ?thesis by simp
  next
    case None
    have "(\<exists>i\<le>length (c # cs). match_here (drop i (c # cs)) = Some g
             \<and> (\<forall>j<i. match_here (drop j (c # cs)) = None))
          \<longleftrightarrow> (\<exists>i\<le>length cs. match_here (drop i cs) = Some g
             \<and> (\<forall>j<i. match_here (drop j cs) = None))"
    proof
      assume "\<exists>i\<le>length (c # cs). match_here (drop i (c # cs)) = Some g
             \<and> (\<forall>j<i. match_here (drop j (c # cs)) = None)"
      then obtain i where le: "i \<le> length (c # cs)"
        and i: "match_here (drop i (c # cs)) = Some g"
        and least: "\<forall>j<i. match_here (drop j (c # cs)) = None" by blast
      from i None have "i \<noteq> 0" by (cases i) auto
      then obtain k where k: "i = Suc k" by (cases i) auto
      have "\<forall>j<k. match_here (drop j cs) = None"
      proof (intro allI impI)
        fix j assume "j < k"
        then have "Suc j < i" by (simp add: k)
        then have "match_here (drop (Suc j) (c # cs)) = None" using least by blast
        then show "match_here (drop j cs) = None" by simp
      qed
      with le i k show "\<exists>i\<le>length cs. match_here (drop i cs) = Some g
             \<and> (\<forall>j<i. match_here (drop j cs) = None)" by auto
    next
      assume "\<exists>i\<le>length cs. match_here (drop i cs) = Some g
             \<and> (\<forall>j<i. match_here (drop j cs) = None)"
      then obtain k where le: "k \<le> length cs"
        and k: "match_here (drop k cs) = Some g"
        and least: "\<forall>j<k. match_here (drop j cs) = None" by blast
      have "\<forall>j<Suc k. match_here (drop j (c # cs)) = None"
      proof (intro allI impI)
        fix j assume j: "j < Suc k"
        show "match_here (drop j (c # cs)) = None"
        proof (cases j)
          case 0
          with None show ?thesis by simp
        next
          case (Suc m)
          with j least show ?thesis by simp
        qed
      qed
      moreover have "match_here (drop (Suc k) (c # cs)) = Some g" using k by simp
      moreover have "Suc k \<le> length (c # cs)" using le by simp
      ultimately show "\<exists>i\<le>length (c # cs). match_here (drop i (c # cs)) = Some g
             \<and> (\<forall>j<i. match_here (drop j (c # cs)) = None)" by blast
    qed
    with None Cons.IH show ?thesis by simp
  qed
qed

lemma re_search_Some_append_iff:
  "re_search url = Some g \<longleftrightarrow>
     (\<exists>pre suf. url = pre @ suf \<and> match_here suf = Some g
        \<and> (\<forall>p s. url = p @ s \<and> length p < length pre \<longrightarrow> match_here s = None))"
proof
  assume "re_search url = Some g"
  then obtain i where le: "i \<le> length url" and i: "match_here (drop i url) = Some g"
    and least: "\<forall>j<i. match_here (drop j url) = None"
    using re_search_Some_iff by blast
  have "url = take i url @ drop i url" by simp
  moreover have "\<forall>p s. url = p @ s \<and> length p < length (take i url) \<longrightarrow> match_here s = None"
  proof (intro allI impI)
    fix p s assume a: "url = p @ s \<and> length p < length (take i url)"
    then have "length p < i" by simp
    then have "match_here (drop (length p) url) = None" using least by blast
    with a show "match_here s = None" by simp
  qed
  ultimately show "\<exists>pre suf. url = pre @ suf \<and> match_here suf = Some g
        \<and> (\<forall>p s. url = p @ s \<and> length p < length pre \<longrightarrow> match_here s = None)"
    using i by blast
next
  assume "\<exists>pre suf. url = pre @ suf \<and> match_here suf = Some g
        \<and> (\<forall>p s. url = p @ s \<and> length p < length pre \<longrightarrow> match_here s = None)"
  then obtain pre suf where u: "url = pre @ suf" and m: "match_here suf = Some g"
    and least: "\<forall>p s. url = p @ s \<and> length p < length pre \<longrightarrow> match_here s = None"
    by blast
  have "\<forall>j<length pre. match_here (drop j url) = None"
  proof (intro allI impI)
    fix j assume j: "j < length pre"
    have "url = take j url @ drop j url" by simp
    moreover have "length (take j url) < length pre" using j u by simp
    ultimately show "match_here (drop j url) = None" using least by blast
  qed
  moreover have "match_here (drop (length pre) url) = Some g" using u m by simp
  moreover have "length pre \<le> length url" using u by simp
  ultimately show "re_search url = Some g"
    using re_search_Some_iff by blast
qed

lemma re_search_None_iff:
  "re_search url = None \<longleftrightarrow> (\<forall>p s. url = p @ s \<longrightarrow> match_here s = None)"
proof (induction url)
  case Nil
  then show ?case by (simp add: match_here_def url_literal_def)
next
  case (Cons c cs)
  show ?case
  proof (cases "match_here (c # cs)")
    case (Some g)
    then have "\<not> (\<forall>p s. c # cs = p @ s \<longrightarrow> match_here s = None)"
      by (metis append_Nil option.distinct(1))
    with Some show ?thesis by simp
  next
    case None
    have "(\<forall>p s. c # cs = p @ s \<longrightarrow> match_here s = None)
          \<longleftrightarrow> (\<forall>p s. cs = p @ s \<longrightarrow> match_here s = None)"
    proof
      assume a: "\<forall>p s. c # cs = p @ s \<longrightarrow> match_here s = None"
      show "\<forall>p s. cs = p @ s \<longrightarrow> match_here s = None"
      proof (intro allI impI)
        fix p s assume "cs = p @ s"
        then have "c # cs = (c # p) @ s" by simp
        with a show "match_here s = None" by blast
      qed
    next
      assume a: "\<forall>p s. cs = p @ s \<longrightarrow> match_here s = None"
      show "\<forall>p s. c # cs = p @ s \<longrightarrow> match_here s = None"
      proof (intro allI impI)
        fix p s assume ps: "c # cs = p @ s"
        show "match_here s = None"
        proof (cases p)
          case Nil
          with ps None show ?thesis by simp
        next
          case (Cons x p')
          with ps have "cs = p' @ s" by simp
          with a show ?thesis by blast
        qed
      qed
    qed
    with None Cons.IH show ?thesis by simp
  qed
qed



lemma match_here_lit_None: "match_here (url_literal @ c # t) = None \<Longrightarrow> \<not> id_char c"
  by (simp add: match_here_def split: if_splits)

lemma match_here_not_None:
  assumes "match_here s \<noteq> None"
  obtains c t where "s = url_literal @ c # t" and "id_char c"
proof -
  from assms have "\<exists>c t. s = url_literal @ c # t \<and> id_char c"
    by (simp only: match_here_None_iff not_not)
  then show thesis using that by (elim exE conjE)
qed

lemma extract_Inl_iff:
  "(\<exists>e. extract_sheet_id url = Inl e) \<longleftrightarrow>
        \<not> (\<exists>p c t. url = p @ url_literal @ c # t \<and> id_char c)"
proof -
  have "(\<exists>e. extract_sheet_id url = Inl e) \<longleftrightarrow> re_search url = None"
    by (simp add: extract_sheet_id_def split: option.splits)
  also have "\<dots> \<longleftrightarrow> (\<forall>p s. url = p @ s \<longrightarrow> match_here s = None)"
    by (rule re_search_None_iff)
  also have "\<dots> \<longleftrightarrow> \<not> (\<exists>p c t. url = p @ url_literal @ c # t \<and> id_char c)"
  proof
    assume a: "\<forall>p s. url = p @ s \<longrightarrow> match_here s = None"
    show "\<not> (\<exists>p c t. url = p @ url_literal @ c # t \<and> id_char c)"
    proof
      assume "\<exists>p c t. url = p @ url_literal @ c # t \<and> id_char c"
      then obtain p c t where u: "url = p @ url_literal @ c # t" and c: "id_char c"
        by (elim exE conjE)
      from a have "url = p @ (url_literal @ c # t) \<longrightarrow> match_here (url_literal @ c # t) = None"
        by (elim allE)
      with u have "match_here (url_literal @ c # t) = None" by simp
      then have "\<not> id_char c" by (rule match_here_lit_None)
      with c show False by simp
    qed
  next
    assume a: "\<not> (\<exists>p c t. url = p @ url_literal @ c # t \<and> id_char c)"
    show "\<forall>p s. url = p @ s \<longrightarrow> match_here s = None"
    proof (intro allI impI)
      fix p s assume u: "url = p @ s"
      show "match_here s = None"
      proof (rule ccontr)
        assume "match_here s \<noteq> None"
        then obtain c t where s: "s = url_literal @ c # t" and c: "id_char c"
          by (rule match_here_not_None)
        from u s c have "\<exists>p c t. url = p @ url_literal @ c # t \<and> id_char c"
          by (intro exI [of _ p] exI [of _ c] exI [of _ t]) simp
        with a show False by (rule notE)
      qed
    qed
  qed
  finally show ?thesis .
qed


lemma extract_Inr_iff:
  "extract_sheet_id url = Inr g \<longleftrightarrow>
      (\<exists>pre rest. url = pre @ url_literal @ g @ rest \<and> g \<noteq> [] \<and> list_all id_char g
         \<and> (rest = [] \<or> \<not> id_char (hd rest))
         \<and> (\<forall>p c t. url = p @ url_literal @ c # t \<and> length p < length pre \<longrightarrow> \<not> id_char c))"
  (is "_ \<longleftrightarrow> ?R")
proof -
  have "extract_sheet_id url = Inr g \<longleftrightarrow> re_search url = Some g"
    by (simp add: extract_sheet_id_def split: option.splits)
  also have "\<dots> \<longleftrightarrow> (\<exists>pre suf. url = pre @ suf \<and> match_here suf = Some g
        \<and> (\<forall>p s. url = p @ s \<and> length p < length pre \<longrightarrow> match_here s = None))"
    (is "_ \<longleftrightarrow> ?L")
    by (rule re_search_Some_append_iff)
  also have "?L \<longleftrightarrow> ?R"
  proof
    assume ?L
    then obtain pre suf where u: "url = pre @ suf" and m: "match_here suf = Some g"
      and least: "\<forall>p s. url = p @ s \<and> length p < length pre \<longrightarrow> match_here s = None"
      by (elim exE conjE)
    from m have "\<exists>rest. suf = url_literal @ g @ rest \<and> g \<noteq> [] \<and> list_all id_char g
             \<and> (rest = [] \<or> \<not> id_char (hd rest))"
      by (simp only: match_here_Some_iff)
    then obtain rest where r1: "suf = url_literal @ g @ rest" and r2: "g \<noteq> []"
      and r3: "list_all id_char g" and r4: "rest = [] \<or> \<not> id_char (hd rest)"
      by (elim exE conjE)
    have r5: "\<forall>p c t. url = p @ url_literal @ c # t \<and> length p < length pre \<longrightarrow> \<not> id_char c"
    proof (intro allI impI)
      fix p c t assume a: "url = p @ url_literal @ c # t \<and> length p < length pre"
      from least have "url = p @ (url_literal @ c # t) \<and> length p < length pre
          \<longrightarrow> match_here (url_literal @ c # t) = None"
        by (elim allE)
      with a have "match_here (url_literal @ c # t) = None" by simp
      then show "\<not> id_char c" by (rule match_here_lit_None)
    qed
    have "url = pre @ url_literal @ g @ rest" using u r1 by simp
    with r2 r3 r4 r5 show ?R
      by (intro exI [of _ pre] exI [of _ rest] conjI)
  next
    assume ?R
    then obtain pre rest where u: "url = pre @ url_literal @ g @ rest" and ne: "g \<noteq> []"
      and all: "list_all id_char g" and stop: "rest = [] \<or> \<not> id_char (hd rest)"
      and least: "\<forall>p c t. url = p @ url_literal @ c # t \<and> length p < length pre \<longrightarrow> \<not> id_char c"
      by (elim exE conjE)
    have "\<exists>rest'. url_literal @ g @ rest = url_literal @ g @ rest' \<and> g \<noteq> []
            \<and> list_all id_char g \<and> (rest' = [] \<or> \<not> id_char (hd rest'))"
      using ne all stop by (intro exI [of _ rest] conjI) simp_all
    then have m: "match_here (url_literal @ g @ rest) = Some g"
      by (simp only: match_here_Some_iff)
    have l: "\<forall>p s. url = p @ s \<and> length p < length pre \<longrightarrow> match_here s = None"
    proof (intro allI impI)
      fix p s assume a: "url = p @ s \<and> length p < length pre"
      show "match_here s = None"
      proof (rule ccontr)
        assume "match_here s \<noteq> None"
        then obtain c t where s: "s = url_literal @ c # t" and c: "id_char c"
          by (rule match_here_not_None)
        from least have "url = p @ url_literal @ c # t \<and> length p < length pre \<longrightarrow> \<not> id_char c"
          by (elim allE)
        with a s have "\<not> id_char c" by simp
        with c show False by simp
      qed
    qed
    from u m l show ?L
      by (intro exI [of _ pre] exI [of _ "url_literal @ g @ rest"] conjI)
  qed
  finally show ?thesis .
qed

text \<open>
  Claim C8, as amended. \<open>extract_sheet_id\<close> returns \<open>g\<close> exactly when the URL
  contains the literal \<^verbatim>\<open>/spreadsheets/d/\<close> followed by \<open>g\<close>, where \<open>g\<close> is a
  non-empty run of characters of \<^verbatim>\<open>[A-Za-z0-9_-]\<close> that is not continued by another
  such character (no closing slash is required), and no earlier occurrence of the
  literal is followed by such a character. It fails exactly when no occurrence of the
  literal is followed by such a character. It consults nothing but the URL. The two
  URLs of the specification's scenario give \<^verbatim>\<open>1A2b3C\<close> and a failure.
\<close>

theorem extract_sheet_id_pattern:
  "(extract_sheet_id url = Inr g \<longleftrightarrow>
      (\<exists>pre rest. url = pre @ url_literal @ g @ rest \<and> g \<noteq> [] \<and> list_all id_char g
         \<and> (rest = [] \<or> \<not> id_char (hd rest))
         \<and> (\<forall>p c t. url = p @ url_literal @ c # t \<and> length p < length pre \<longrightarrow> \<not> id_char c)))
   \<and> ((\<exists>e. extract_sheet_id url = Inl e) \<longleftrightarrow>
        \<not> (\<exists>p c t. url = p @ url_literal @ c # t \<and> id_char c))
   \<and> extract_sheet_id ''https://docs.google.com/spreadsheets/d/1A2b3C/edit#gid=0'' = Inr ''1A2b3C''
   \<and> extract_sheet_id ''https://example.com/nope''
        = Inl (ValueError ''Invalid Google Sheets URL format: https://example.com/nope'')"
proof (intro conjI)
  show "extract_sheet_id ''https://docs.google.com/spreadsheets/d/1A2b3C/edit#gid=0'' = Inr ''1A2b3C''"
    by code_simp
  show "extract_sheet_id ''https://example.com/nope''
        = Inl (ValueError ''Invalid Google Sheets URL format: https://example.com/nope'')"
    by code_simp
qed (rule extract_Inr_iff, rule extract_Inl_iff)

theorem extract_sheet_id_pattern_witness:
  "extract_sheet_id ''x/spreadsheets/d/ab-1?y'' = Inr ''ab-1''
   \<and> (\<exists>pre rest. ''x/spreadsheets/d/ab-1?y'' = pre @ url_literal @ ''ab-1'' @ rest
         \<and> (rest = [] \<or> \<not> id_char (hd rest)))"
proof -
  have e: "extract_sheet_id ''x/spreadsheets/d/ab-1?y'' = Inr ''ab-1''"
    by code_simp
  from extract_sheet_id_pattern [of "''x/spreadsheets/d/ab-1?y''" "''ab-1''"]
  have "extract_sheet_id ''x/spreadsheets/d/ab-1?y'' = Inr ''ab-1'' \<longleftrightarrow>
      (\<exists>pre rest. ''x/spreadsheets/d/ab-1?y'' = pre @ url_literal @ ''ab-1'' @ rest
         \<and> ''ab-1'' \<noteq> [] \<and> list_all id_char ''ab-1''
         \<and> (rest = [] \<or> \<not> id_char (hd rest))
         \<and> (\<forall>p c t. ''x/spreadsheets/d/ab-1?y'' = p @ url_literal @ c # t \<and> length p < length pre
                \<longrightarrow> \<not> id_char c))"
    by (rule conjunct1)
  from iffD1 [OF this e] obtain pre rest where
    "''x/spreadsheets/d/ab-1?y'' = pre @ url_literal @ ''ab-1'' @ rest"
    "rest = [] \<or> \<not> id_char (hd rest)"
    by (elim exE conjE)
  then have "\<exists>pre rest. ''x/spreadsheets/d/ab-1?y'' = pre @ url_literal @ ''ab-1'' @ rest
         \<and> (rest = [] \<or> \<not> id_char (hd rest))"
    by (intro exI [of _ pre] exI [of _ rest] conjI)
  with e show ?thesis by (rule conjI)
qed

text \<open>
  The claim as written asks for the closing slash of the segment. A URL that ends
  right after the identifier is accepted by the program and rejected by that pattern.
\<close>

theorem extract_sheet_id_closing_slash_counterexample:
  "extract_sheet_id ''https://docs.google.com/spreadsheets/d/1A2b3C'' = Inr ''1A2b3C''
   \<and> spec_extract_id ''https://docs.google.com/spreadsheets/d/1A2b3C''
       = Inl (ValueError
           ''Invalid Google Sheets URL format: https://docs.google.com/spreadsheets/d/1A2b3C'')"
  by code_simp


section \<open>Padding and the normalised table\<close>

lemma length_spec_dedup_from: "length (spec_dedup_from seen ns) = length ns"
  by (induction ns arbitrary: seen) simp_all

lemma length_unique_headers_of: "length (unique_headers_of hs) = length hs"
  by (simp add: unique_headers_refines spec_dedup_def length_spec_dedup_from spec_fill_blank_def)

lemma max_cols_of_ge: "r \<in> set vals \<Longrightarrow> length r \<le> max_cols_of vals"
  by (auto simp: max_cols_of_def)

lemma max_cols_of_attained: "vals \<noteq> [] \<Longrightarrow> \<exists>r\<in>set vals. length r = max_cols_of vals"
proof -
  assume ne: "vals \<noteq> []"
  then have "Max (length ` set vals) \<in> length ` set vals"
    by (intro Max_in) auto
  then obtain r where "r \<in> set vals" "length r = Max (length ` set vals)"
    by (auto simp: image_iff)
  with ne show ?thesis by (auto simp: max_cols_of_def)
qed

lemma length_pad_row: "length r \<le> m \<Longrightarrow> length (pad_row m r) = m"
  by (simp add: pad_row_def)

lemma padded_row_length: "r \<in> set (padded_values_of vals) \<Longrightarrow> length r = max_cols_of vals"
  by (auto simp: padded_values_of_def length_pad_row max_cols_of_ge)

lemma length_padded_values_of: "length (padded_values_of vals) = length vals"
  by (simp add: padded_values_of_def)

lemma padded_nth:
  "i < length vals \<Longrightarrow>
     padded_values_of vals ! i = vals ! i @ replicate (max_cols_of vals - length (vals ! i)) ''''"
  by (simp add: padded_values_of_def pad_row_def)

lemma pd_DataFrame_rectangular:
  assumes "\<forall>r\<in>set data. length r = length cols"
  shows "pd_DataFrame data cols = Inr \<lparr>columns = cols, rows = map (map Str) data\<rparr>"
proof (cases "data = []")
  case True
  then show ?thesis by (simp add: pd_DataFrame_def)
next
  case False
  then have "set (map length data) = {length cols}" using assms by (cases data) auto
  then have "Max (set (map length data)) = length cols" by simp
  moreover have "map (\<lambda>r. map Str r @ replicate (length cols - length r) NaN) data = map (map Str) data"
    using assms by (intro map_cong refl) simp
  ultimately show ?thesis using False by (simp add: pd_DataFrame_def)
qed

lemma py_index_nat:
  "k < length xs \<Longrightarrow>
     (if int k < int (length xs) then py_index xs (int k) else Inr []) = Inr (xs ! k)"
  by (simp add: py_index_def)

lemma py_slice_from_nat:
  "(if int k + 1 < int (length xs) then py_slice_from xs (int k + 1) else []) = drop (Suc k) xs"
  by (simp add: py_slice_from_def nat_add_distrib)

lemma table_of_values_eq:
  assumes ne: "vals \<noteq> []" and pos: "1 \<le> header_row"
  shows "table_of_values vals header_row source =
     (if int (length vals) < header_row then [St_error (Header_row_beyond_range header_row)] else [],
      Inr (normalized_table vals header_row source))"
proof -
  let ?p = "padded_values_of vals"
  let ?k = "header_position vals header_row"
  have len: "length ?p = length vals" by (rule length_padded_values_of)
  have k_lt: "?k < length ?p" using ne pos by (auto simp: header_position_def len)
  have hdr_len: "length (unique_headers_of (?p ! ?k)) = max_cols_of vals"
    using k_lt by (simp add: length_unique_headers_of padded_row_length)
  have rect: "\<forall>r\<in>set (drop (Suc ?k) ?p). length r = length (unique_headers_of (?p ! ?k))"
    using hdr_len by (auto dest: in_set_dropD padded_row_length)
  have frame: "pd_DataFrame (drop (Suc ?k) ?p) (unique_headers_of (?p ! ?k)) =
      Inr \<lparr>columns = unique_headers_of (?p ! ?k), rows = map (map Str) (drop (Suc ?k) ?p)\<rparr>"
    using rect by (rule pd_DataFrame_rectangular)
  have b: "(int (length ?p) \<le> header_row - 1) = (int (length vals) < header_row)"
    by (simp add: len)
  have hi: "(if int (length vals) < header_row then 0 else header_row - 1) = int ?k"
    using pos by (simp add: header_position_def)
  show ?thesis
    unfolding table_of_values_def Let_def
    apply (simp only: b hi py_index_nat [OF k_lt] py_slice_from_nat frame sum.case)
    apply (simp add: normalized_table_def)
    done
qed

lemma index_of_Some: "index_of x ys = Some i \<Longrightarrow> i < length ys \<and> ys ! i = x"
  by (induction ys arbitrary: i) (auto split: if_splits)

lemma index_of_mem: "x \<in> set ys \<Longrightarrow> \<exists>i. index_of x ys = Some i"
  by (induction ys) auto

lemma index_of_append_new: "x \<notin> set ys \<Longrightarrow> index_of x (ys @ [x]) = Some (length ys)"
  by (induction ys) auto

lemma setitem_rectangular:
  assumes "\<forall>r\<in>set (rows df). length r = length (columns df)"
  shows "\<forall>r\<in>set (rows (setitem df key v)). length r = length (columns (setitem df key v))"
  using assms by (auto simp: setitem_def)

lemma setitem_cell:
  assumes rect: "\<forall>r\<in>set (rows df). length r = length (columns df)"
  shows "\<forall>r\<in>set (rows (setitem df key v)). cell_at (columns (setitem df key v)) r key = v"
proof (cases "key \<in> set (columns df)")
  case True
  then obtain i where i: "index_of key (columns df) = Some i" using index_of_mem by fastforce
  then have il: "i < length (columns df)" and ik: "columns df ! i = key"
    using index_of_Some by fastforce+
  show ?thesis
  proof
    fix r assume "r \<in> set (rows (setitem df key v))"
    then obtain r0 where r0: "r0 \<in> set (rows df)"
      and r: "r = map (\<lambda>(c, x). if c = key then v else x) (zip (columns df) r0)"
      using True by (auto simp: setitem_def)
    have "length r0 = length (columns df)" using rect r0 by simp
    then have "r ! i = v" and "i < length r" using il ik by (simp_all add: r)
    then show "cell_at (columns (setitem df key v)) r key = v"
      using True i by (simp add: cell_at_def setitem_def)
  qed
next
  case False
  show ?thesis
  proof
    fix r assume "r \<in> set (rows (setitem df key v))"
    then obtain r0 where r0: "r0 \<in> set (rows df)" and r: "r = r0 @ [v]"
      using False by (auto simp: setitem_def)
    have "length r0 = length (columns df)" using rect r0 by simp
    then have "(r0 @ [v]) ! length (columns df) = v"
      by (metis nth_append_length)
    then show "cell_at (columns (setitem df key v)) r key = v"
      using False \<open>length r0 = length (columns df)\<close>
      by (simp add: cell_at_def setitem_def index_of_append_new r)
  qed
qed

lemma normalized_table_rows:
  assumes ne: "vals \<noteq> []" and pos: "1 \<le> header_row"
  shows "length (rows (normalized_table vals header_row source))
           = length vals - Suc (header_position vals header_row)"
    and "\<forall>r\<in>set (rows (normalized_table vals header_row source)).
           length r = length (columns (normalized_table vals header_row source))
           \<and> cell_at (columns (normalized_table vals header_row source)) r ''_source_sheet''
               = Str source"
proof -
  let ?p = "padded_values_of vals"
  let ?k = "header_position vals header_row"
  let ?df = "\<lparr>columns = unique_headers_of (?p ! ?k), rows = map (map Str) (drop (Suc ?k) ?p)\<rparr>"
  have len: "length ?p = length vals" by (rule length_padded_values_of)
  have k_lt: "?k < length ?p" using ne pos by (auto simp: header_position_def len)
  have hdr: "length (unique_headers_of (?p ! ?k)) = max_cols_of vals"
    using k_lt by (simp add: length_unique_headers_of padded_row_length)
  have rect: "\<forall>r\<in>set (rows ?df). length r = length (columns ?df)"
    by (auto simp: hdr padded_row_length dest!: in_set_dropD)
  show "length (rows (normalized_table vals header_row source))
           = length vals - Suc (header_position vals header_row)"
    by (simp add: normalized_table_def setitem_def len)
  show "\<forall>r\<in>set (rows (normalized_table vals header_row source)).
           length r = length (columns (normalized_table vals header_row source))
           \<and> cell_at (columns (normalized_table vals header_row source)) r ''_source_sheet''
               = Str source"
    unfolding normalized_table_def
    using setitem_rectangular [OF rect, of "''_source_sheet''" "Str source"]
      setitem_cell [OF rect, of "''_source_sheet''" "Str source"]
    by blast
qed

lemma normalized_table_plain:
  assumes "''_source_sheet'' \<notin> set (unique_headers_of (padded_values_of vals ! header_position vals header_row))"
  shows "normalized_table vals header_row source =
     \<lparr>columns = unique_headers_of (padded_values_of vals ! header_position vals header_row)
                  @ [''_source_sheet''],
      rows = map (\<lambda>r. map Str r @ [Str source])
                 (drop (Suc (header_position vals header_row)) (padded_values_of vals))\<rparr>"
  using assms by (simp add: normalized_table_def setitem_def)

text \<open>
  Claim C7. Padding gives every row exactly \<open>max_cols\<close> cells, where \<open>max_cols\<close> is
  the length of a longest input row: row \<open>i\<close> is the input row followed by empty
  strings. For a non-empty grid and a header row \<open>header_row \<ge> 1\<close> the authenticated
  path returns the closed-form table: its data rows are the padded rows after the
  header row, every row has one cell per column, and the cell under
  \<^verbatim>\<open>_source_sheet\<close> is the provenance; when no header is named
  \<^verbatim>\<open>_source_sheet\<close>, a data row is the \<open>max_cols\<close> padded cells followed by the
  provenance. The grid Name, Age / Bob, 30 / Ann, 28 with header row 1 and provenance
  S1 gives the columns Name, Age, \<^verbatim>\<open>_source_sheet\<close> and two rows carrying S1.
\<close>

theorem normalize_pads_ragged_rows:
  "(\<forall>r\<in>set vals. length r \<le> max_cols_of vals)
   \<and> (vals \<noteq> [] \<longrightarrow> (\<exists>r\<in>set vals. length r = max_cols_of vals))
   \<and> length (padded_values_of vals) = length vals
   \<and> (\<forall>i<length vals.
         padded_values_of vals ! i
           = vals ! i @ replicate (max_cols_of vals - length (vals ! i)) ''''
         \<and> length (padded_values_of vals ! i) = max_cols_of vals)
   \<and> (vals \<noteq> [] \<and> 1 \<le> header_row \<longrightarrow>
         snd (table_of_values vals header_row source)
           = Inr (normalized_table vals header_row source)
         \<and> length (rows (normalized_table vals header_row source))
             = length vals - Suc (header_position vals header_row)
         \<and> (\<forall>r\<in>set (rows (normalized_table vals header_row source)).
               length r = length (columns (normalized_table vals header_row source))
               \<and> cell_at (columns (normalized_table vals header_row source)) r ''_source_sheet''
                   = Str source)
         \<and> (''_source_sheet''
               \<notin> set (unique_headers_of (padded_values_of vals ! header_position vals header_row))
             \<longrightarrow> normalized_table vals header_row source =
                 \<lparr>columns = unique_headers_of
                               (padded_values_of vals ! header_position vals header_row)
                             @ [''_source_sheet''],
                  rows = map (\<lambda>r. map Str r @ [Str source])
                           (drop (Suc (header_position vals header_row))
                              (padded_values_of vals))\<rparr>))
   \<and> table_of_values [[''Name'', ''Age''], [''Bob'', ''30''], [''Ann'', ''28'']] 1 ''S1''
       = ([], Inr \<lparr>columns = [''Name'', ''Age'', ''_source_sheet''],
                   rows = [[Str ''Bob'', Str ''30'', Str ''S1''],
                           [Str ''Ann'', Str ''28'', Str ''S1'']]\<rparr>)"
proof (intro conjI impI allI ballI)
  show "table_of_values [[''Name'', ''Age''], [''Bob'', ''30''], [''Ann'', ''28'']] 1 ''S1''
       = ([], Inr \<lparr>columns = [''Name'', ''Age'', ''_source_sheet''],
                   rows = [[Str ''Bob'', Str ''30'', Str ''S1''],
                           [Str ''Ann'', Str ''28'', Str ''S1'']]\<rparr>)"
    by code_simp
next
  fix r assume "r \<in> set vals"
  then show "length r \<le> max_cols_of vals" by (rule max_cols_of_ge)
next
  assume "vals \<noteq> []"
  then show "\<exists>r\<in>set vals. length r = max_cols_of vals" by (rule max_cols_of_attained)
next
  show "length (padded_values_of vals) = length vals" by (rule length_padded_values_of)
next
  fix i assume i: "i < length vals"
  then show "padded_values_of vals ! i
           = vals ! i @ replicate (max_cols_of vals - length (vals ! i)) ''''"
    by (rule padded_nth)
  from i have "padded_values_of vals ! i \<in> set (padded_values_of vals)"
    by (simp add: length_padded_values_of)
  then show "length (padded_values_of vals ! i) = max_cols_of vals"
    by (rule padded_row_length)
next
  assume a: "vals \<noteq> [] \<and> 1 \<le> header_row"
  then show "snd (table_of_values vals header_row source)
           = Inr (normalized_table vals header_row source)"
    by (simp add: table_of_values_eq)
  from a show "length (rows (normalized_table vals header_row source))
             = length vals - Suc (header_position vals header_row)"
    by (simp add: normalized_table_rows(1))
  {
    fix r assume r: "r \<in> set (rows (normalized_table vals header_row source))"
    from a r show "length r = length (columns (normalized_table vals header_row source))"
      using normalized_table_rows(2) [of vals header_row source] by blast
    from a r show "cell_at (columns (normalized_table vals header_row source)) r ''_source_sheet''
                   = Str source"
      using normalized_table_rows(2) [of vals header_row source] by blast
  }
  {
    assume "''_source_sheet''
               \<notin> set (unique_headers_of (padded_values_of vals ! header_position vals header_row))"
    then show "normalized_table vals header_row source =
                 \<lparr>columns = unique_headers_of
                               (padded_values_of vals ! header_position vals header_row)
                             @ [''_source_sheet''],
                  rows = map (\<lambda>r. map Str r @ [Str source])
                           (drop (Suc (header_position vals header_row))
                              (padded_values_of vals))\<rparr>"
      by (rule normalized_table_plain)
  }
qed

theorem normalize_pads_ragged_rows_witness:
  "length (padded_values_of [[''a'', ''b''], [''1'']] ! 1) = max_cols_of [[''a'', ''b''], [''1'']]
   \<and> snd (table_of_values [[''a'', ''b''], [''1'']] 1 ''S'')
       = Inr (normalized_table [[''a'', ''b''], [''1'']] 1 ''S'')
   \<and> length (rows (normalized_table [[''a'', ''b''], [''1'']] 1 ''S''))
       = length [[''a'', ''b''], [''1'']] - Suc (header_position [[''a'', ''b''], [''1'']] 1)"
proof -
  let ?V = "[[''a'', ''b''], [''1'']]"
  note t = normalize_pads_ragged_rows [of ?V 1 "''S''"]
  have i: "(1::nat) < length ?V" by simp
  have h: "?V \<noteq> [] \<and> (1::int) \<le> 1" by simp
  note t4 = t [THEN conjunct2, THEN conjunct2, THEN conjunct2, THEN conjunct1]
  note t5 = t [THEN conjunct2, THEN conjunct2, THEN conjunct2, THEN conjunct2, THEN conjunct1,
               THEN mp, OF h]
  have a: "length (padded_values_of ?V ! 1) = max_cols_of ?V"
    using t4 [THEN spec, of 1, THEN mp, OF i] by (rule conjunct2)
  have b: "snd (table_of_values ?V 1 ''S'') = Inr (normalized_table ?V 1 ''S'')"
    using t5 by (rule conjunct1)
  have c: "length (rows (normalized_table ?V 1 ''S''))
       = length ?V - Suc (header_position ?V 1)"
    using t5 [THEN conjunct2] by (rule conjunct1)
  from a b c show ?thesis by (intro conjI)
qed

section \<open>Column names after deduplication\<close>

text \<open>
  Claim C4 at a failing input. The header row A, A_1, A comes out as A, A_1, A_1: the
  loop counts the names it reads, not the names it writes, so the suffixed name of
  the third cell collides with the second cell. The column names of the returned
  table are not pairwise distinct.
\<close>

theorem duplicate_column_names_survive:
  "fetch_sheet_data ext (Some (fixed_service [[''A'', ''A_1'', ''A''], [''1'', ''2'', ''3'']]))
       ''doc'' (Some ''S'') ''0'' 1
     = ([], Inr \<lparr>columns = [''A'', ''A_1'', ''A_1'', ''_source_sheet''],
                 rows = [[Str ''1'', Str ''2'', Str ''3'', Str ''S'']]\<rparr>)
   \<and> \<not> distinct [''A'', ''A_1'', ''A_1'', ''_source_sheet'']"
proof -
  have t: "table_of_values [[''A'', ''A_1'', ''A''], [''1'', ''2'', ''3'']] 1 ''S''
     = ([], Inr \<lparr>columns = [''A'', ''A_1'', ''A_1'', ''_source_sheet''],
                 rows = [[Str ''1'', Str ''2'', Str ''3'', Str ''S'']]\<rparr>)"
    by code_simp
  show ?thesis
    by (simp add: fetch_sheet_data_def fetch_authenticated_def fixed_service_def t
                  source_sheet_def py_or_def)
qed

section \<open>The fetch always returns\<close>

text \<open>
  Every \<^verbatim>\<open>raise\<close> inside \<^verbatim>\<open>fetch_sheet_data\<close> is caught by one of its own
  handlers, on both channels.
\<close>

lemma fetch_authenticated_returns:
  "\<exists>df. snd (fetch_authenticated service sheet_id sheet_name gid header_row) = Inr df"
  by (auto simp: fetch_authenticated_def Let_def split: sum.splits py_exn.splits prod.splits)

lemma fetch_public_returns:
  "\<exists>df. snd (fetch_public ext sheet_id sheet_name gid header_row) = Inr df"
  by (auto simp: fetch_public_def Let_def split: sum.splits py_exn.splits prod.splits)

lemma fetch_sheet_data_returns:
  "\<exists>df. snd (fetch_sheet_data ext service sheet_id sheet_name gid header_row) = Inr df"
  by (cases service) (simp_all add: fetch_sheet_data_def fetch_authenticated_returns fetch_public_returns)

lemma fetch_authenticated_values:
  assumes "service sheet_id (range_name_of sheet_name) = Inr vals" and "vals \<noteq> []" and "1 \<le> header_row"
  shows "fetch_authenticated service sheet_id sheet_name gid header_row =
     (if int (length vals) < header_row then [St_error (Header_row_beyond_range header_row)] else [],
      Inr (normalized_table vals header_row (source_sheet sheet_id sheet_name gid)))"
  using assms by (simp add: fetch_authenticated_def Let_def table_of_values_eq)

text \<open>
  The public path has no header-row check of its own: it hands \<open>header_row - 1\<close> to
  the reader as it is, and whatever the collaborators answer, the correction notice
  is not among its notices.
\<close>

lemma public_never_reports_header_row:
  "St_error (Header_row_beyond_range n) \<notin> set (fst (fetch_public ext sheet_id sheet_name gid header_row))"
  by (auto simp: fetch_public_def Let_def split: sum.splits py_exn.splits prod.splits)

section \<open>A header row beyond the rows\<close>

text \<open>
  The authenticated path checks the header row against the rows (lines 278 to 281 of
  \<^verbatim>\<open>app.py\<close>): on a value range with at least one row and a header row beyond the
  rows, it reports the correction notice and builds the table from row 1. An empty
  value range is answered before that check, with the empty frame and the warning
  that the sheet is empty.
\<close>

lemma authenticated_header_row_beyond_rows:
  assumes "service sheet_id (range_name_of sheet_name) = Inr vals" and "vals \<noteq> []"
    and "int (length vals) < header_row"
  shows "fetch_sheet_data ext (Some service) sheet_id sheet_name gid header_row
        = ([St_error (Header_row_beyond_range header_row)],
           Inr (setitem
                  \<lparr>columns = unique_headers_of (hd (padded_values_of vals)),
                   rows = map (map Str) (tl (padded_values_of vals))\<rparr>
                  ''_source_sheet'' (Str (source_sheet sheet_id sheet_name gid))))"
proof -
  from assms have pos: "1 \<le> header_row" by (cases vals) auto
  from assms have p: "padded_values_of vals \<noteq> []" by (simp add: padded_values_of_def)
  have "fetch_authenticated service sheet_id sheet_name gid header_row =
     ([St_error (Header_row_beyond_range header_row)],
      Inr (normalized_table vals header_row (source_sheet sheet_id sheet_name gid)))"
    using assms pos fetch_authenticated_values [of service sheet_id sheet_name vals header_row gid]
    by simp
  moreover have "normalized_table vals header_row (source_sheet sheet_id sheet_name gid) =
      setitem \<lparr>columns = unique_headers_of (hd (padded_values_of vals)),
               rows = map (map Str) (tl (padded_values_of vals))\<rparr>
        ''_source_sheet'' (Str (source_sheet sheet_id sheet_name gid))"
    using assms p by (simp add: normalized_table_def header_position_def hd_conv_nth drop_Suc)
  ultimately show ?thesis by (simp add: fetch_sheet_data_def)
qed

lemma authenticated_empty_range:
  assumes "service sheet_id (range_name_of sheet_name) = Inr []"
  shows "fetch_sheet_data ext (Some service) sheet_id sheet_name gid header_row
        = ([St_warning (Sheet_is_empty (py_or sheet_name ''Sheet1''))], Inr pd_DataFrame_empty)"
  using assms by (simp add: fetch_sheet_data_def fetch_authenticated_def)

text \<open>
  Claim C3 at a failing input. The public channel receives a CSV of two lines and is
  asked for header row 5. \<^verbatim>\<open>pd.read_csv\<close> is called with \<^verbatim>\<open>header=4\<close> and raises,
  since the file has no such line; the fetch catches the exception and returns the
  empty frame with the generic processing error. Row 1 is not used as the header and
  no correction notice is shown. On the authenticated channel the same two rows and
  the same header row give the correction notice and the table built from row 1.
\<close>

theorem public_header_row_beyond_lines_not_clamped:
  "fetch_sheet_data (fixed_externals example_csv_body (Inl ParserError)) None
       ''doc'' (Some ''S'') ''0'' 5
     = ([St_error (Error_processing ''S'' ParserError)], Inr pd_DataFrame_empty)
   \<and> fetch_sheet_data (fixed_externals example_csv_body (Inl ParserError))
       (Some (fixed_service [[''A'', ''B''], [''1'', ''2'']])) ''doc'' (Some ''S'') ''0'' 5
     = ([St_error (Header_row_beyond_range 5)],
        Inr \<lparr>columns = [''A'', ''B'', ''_source_sheet''],
              rows = [[Str ''1'', Str ''2'', Str ''S'']]\<rparr>)"
proof (intro conjI)
  have s: "take (length ''<!DOCTYPE html>'') (py_strip example_csv_body) \<noteq> ''<!DOCTYPE html>''"
    by code_simp
  show "fetch_sheet_data (fixed_externals example_csv_body (Inl ParserError)) None
       ''doc'' (Some ''S'') ''0'' 5
     = ([St_error (Error_processing ''S'' ParserError)], Inr pd_DataFrame_empty)"
    using s
    by (simp add: fetch_sheet_data_def fetch_public_def fixed_externals_def Let_def py_or_def)
next
  have t: "table_of_values [[''A'', ''B''], [''1'', ''2'']] 5 ''S''
     = ([St_error (Header_row_beyond_range 5)],
        Inr \<lparr>columns = [''A'', ''B'', ''_source_sheet''],
              rows = [[Str ''1'', Str ''2'', Str ''S'']]\<rparr>)"
    by code_simp
  show "fetch_sheet_data (fixed_externals example_csv_body (Inl ParserError))
       (Some (fixed_service [[''A'', ''B''], [''1'', ''2'']])) ''doc'' (Some ''S'') ''0'' 5
     = ([St_error (Header_row_beyond_range 5)],
        Inr \<lparr>columns = [''A'', ''B'', ''_source_sheet''],
              rows = [[Str ''1'', Str ''2'', Str ''S'']]\<rparr>)"
    by (simp add: fetch_sheet_data_def fetch_authenticated_def fixed_service_def t
                  source_sheet_def py_or_def)
qed

section \<open>The worksheet index on the authenticated channel\<close>

text \<open>
  Claim C10. On the authenticated channel, with a non-empty worksheet name, two fetches
  that differ only in \<open>gid\<close> give the same notices and the same table. Without a
  name, the range is \<^verbatim>\<open>Sheet1\<close> and \<open>gid\<close> enters the result only through the
  provenance string \<^verbatim>\<open>Sheet_<id>_gid<gid>\<close>.
\<close>

theorem authenticated_fetch_ignores_gid:
  "(py_truthy sheet_name \<longrightarrow>
      fetch_sheet_data ext (Some service) sheet_id sheet_name gid1 header_row
        = fetch_sheet_data ext (Some service) sheet_id sheet_name gid2 header_row)
   \<and> (\<not> py_truthy sheet_name \<and> service sheet_id ''Sheet1'' = Inr vals \<and> vals \<noteq> []
        \<and> 1 \<le> header_row \<longrightarrow>
      fetch_sheet_data ext (Some service) sheet_id sheet_name gid1 header_row
        = (if int (length vals) < header_row
           then [St_error (Header_row_beyond_range header_row)] else [],
           Inr (normalized_table vals header_row (''Sheet_'' @ sheet_id @ ''_gid'' @ gid1))))"
proof (intro conjI impI)
  assume "py_truthy sheet_name"
  then have ss: "\<And>g. source_sheet sheet_id sheet_name g = the sheet_name"
    by (simp add: source_sheet_def py_or_def)
  show "fetch_sheet_data ext (Some service) sheet_id sheet_name gid1 header_row
        = fetch_sheet_data ext (Some service) sheet_id sheet_name gid2 header_row"
    unfolding fetch_sheet_data_def option.case fetch_authenticated_def ss by (rule refl)
next
  assume a: "\<not> py_truthy sheet_name \<and> service sheet_id ''Sheet1'' = Inr vals \<and> vals \<noteq> []
        \<and> 1 \<le> header_row"
  then have r: "range_name_of sheet_name = ''Sheet1''"
    and s: "source_sheet sheet_id sheet_name gid1 = ''Sheet_'' @ sheet_id @ ''_gid'' @ gid1"
    by (simp_all add: range_name_of_def source_sheet_def py_or_def)
  from a r have "service sheet_id (range_name_of sheet_name) = Inr vals" by simp
  with a have "fetch_authenticated service sheet_id sheet_name gid1 header_row =
     (if int (length vals) < header_row then [St_error (Header_row_beyond_range header_row)] else [],
      Inr (normalized_table vals header_row (source_sheet sheet_id sheet_name gid1)))"
    by (intro fetch_authenticated_values) simp_all
  then show "fetch_sheet_data ext (Some service) sheet_id sheet_name gid1 header_row
        = (if int (length vals) < header_row
           then [St_error (Header_row_beyond_range header_row)] else [],
           Inr (normalized_table vals header_row (''Sheet_'' @ sheet_id @ ''_gid'' @ gid1)))"
    by (simp only: fetch_sheet_data_def option.case s)
qed

theorem authenticated_fetch_ignores_gid_witness:
  "fetch_sheet_data (fixed_externals '''' (Inl EmptyDataError)) (Some (fixed_service [[''a''], [''1'']])) ''doc'' (Some ''S'') ''0'' 1
     = fetch_sheet_data (fixed_externals '''' (Inl EmptyDataError)) (Some (fixed_service [[''a''], [''1'']])) ''doc'' (Some ''S'') ''42'' 1"
proof -
  have h: "py_truthy (Some ''S'')" by simp
  from authenticated_fetch_ignores_gid
         [of "Some ''S''" "fixed_externals '''' (Inl EmptyDataError)" "fixed_service [[''a''], [''1'']]" "''doc''" "''0''" 1 "''42''",
          THEN conjunct1, THEN mp, OF h]
  show ?thesis .
qed

section \<open>Adding a sheet\<close>

text \<open>
  Claim C9. When the fetch behind \<open>add_sheet\<close> yields a frame with zero data rows, the
  add is rejected with a warning and the combiner is returned exactly as it was. More
  generally a rejected add leaves the combiner unchanged, and an accepted add appends
  exactly one entry, whose frame has at least one row and one column.
\<close>

theorem add_sheet_rejects_empty_fetch:
  "(fetch_sheet_data ext (sheets_service self) sheet_id (info_name info) (info_gid info) header_row
       = (notes, Inr df) \<and> rows df = [] \<longrightarrow>
      add_sheet ext self sheet_id info header_row custom_name
        = (notes @ [St_warning (Sheet_empty_or_inaccessible (info_name info))], self, False))
   \<and> (add_sheet ext self sheet_id info header_row custom_name = (notes', self', True) \<longrightarrow>
        (\<exists>entry. sheets_data self' = sheets_data self @ [entry]
                  \<and> rows (entry_data entry) \<noteq> [] \<and> columns (entry_data entry) \<noteq> []))
   \<and> (add_sheet ext self sheet_id info header_row custom_name = (notes', self', False) \<longrightarrow>
        self' = self)"
proof (intro conjI impI)
  assume "fetch_sheet_data ext (sheets_service self) sheet_id (info_name info) (info_gid info) header_row
       = (notes, Inr df) \<and> rows df = []"
  then show "add_sheet ext self sheet_id info header_row custom_name
        = (notes @ [St_warning (Sheet_empty_or_inaccessible (info_name info))], self, False)"
    by (simp add: add_sheet_def df_empty_def)
next
  assume "add_sheet ext self sheet_id info header_row custom_name = (notes', self', True)"
  then show "\<exists>entry. sheets_data self' = sheets_data self @ [entry]
                  \<and> rows (entry_data entry) \<noteq> [] \<and> columns (entry_data entry) \<noteq> []"
    by (auto simp: add_sheet_def Let_def df_empty_def split: prod.splits sum.splits if_splits)
next
  assume "add_sheet ext self sheet_id info header_row custom_name = (notes', self', False)"
  then show "self' = self"
    by (auto simp: add_sheet_def Let_def split: prod.splits sum.splits if_splits)
qed

theorem add_sheet_rejects_empty_fetch_witness:
  "add_sheet (fixed_externals '''' (Inl EmptyDataError))
       (init_combiner\<lparr>sheets_service := Some (fixed_service [[''a'', ''b'']])\<rparr>)
       ''doc'' \<lparr>info_gid = ''0'', info_name = Some ''S''\<rparr> 1 None
     = ([] @ [St_warning (Sheet_empty_or_inaccessible (Some ''S''))],
        init_combiner\<lparr>sheets_service := Some (fixed_service [[''a'', ''b'']])\<rparr>, False)"
proof -
  let ?self = "init_combiner\<lparr>sheets_service := Some (fixed_service [[''a'', ''b'']])\<rparr>"
  let ?df = "\<lparr>columns = [''a'', ''b'', ''_source_sheet''], rows = []\<rparr>"
  have t: "table_of_values [[''a'', ''b'']] 1 ''S'' = ([], Inr ?df)"
    by code_simp
  have h: "fetch_sheet_data (fixed_externals '''' (Inl EmptyDataError)) (sheets_service ?self) ''doc''
       (info_name \<lparr>info_gid = ''0'', info_name = Some ''S''\<rparr>)
       (info_gid \<lparr>info_gid = ''0'', info_name = Some ''S''\<rparr>) 1
       = ([], Inr ?df) \<and> rows ?df = []"
    by (simp add: fetch_sheet_data_def fetch_authenticated_def fixed_service_def t
                  source_sheet_def py_or_def)
  from add_sheet_rejects_empty_fetch
         [of "fixed_externals '''' (Inl EmptyDataError)" ?self "''doc''"
             "\<lparr>info_gid = ''0'', info_name = Some ''S''\<rparr>" 1 "[]" ?df None,
          THEN conjunct1, THEN mp, OF h]
  show ?thesis by simp
qed

section \<open>The public channel on an HTML body\<close>

text \<open>
  Claim C5, as amended. On the public channel, when the response body, stripped of
  surrounding whitespace, starts with the literal \<^verbatim>\<open><!DOCTYPE html>\<close>, the
  not-publicly-accessible error is raised and caught inside the fetch: the caller gets
  the empty frame (no columns, no rows) together with an error notice that carries the
  message of that error. No exception reaches the caller.
\<close>

theorem public_html_shell_gives_empty_table:
  "requests_get ext (csv_url_of sheet_id gid) = Inr response_text
     \<and> take (length ''<!DOCTYPE html>'') (py_strip response_text) = ''<!DOCTYPE html>'' \<longrightarrow>
   fetch_sheet_data ext None sheet_id sheet_name gid header_row
     = ([St_error (Error_processing (py_or sheet_name ''Sheet1'')
           (ValueError ''Sheet may not be publicly accessible. Received HTML instead of CSV.''))],
        Inr pd_DataFrame_empty)"
  by (simp add: fetch_sheet_data_def fetch_public_def)

theorem public_html_shell_gives_empty_table_witness:
  "fetch_sheet_data (fixed_externals ''  <!DOCTYPE html><html></html>'' (Inl EmptyDataError)) None
       ''doc'' None ''0'' 1
     = ([St_error (Error_processing (py_or None ''Sheet1'')
           (ValueError ''Sheet may not be publicly accessible. Received HTML instead of CSV.''))],
        Inr pd_DataFrame_empty)"
proof -
  let ?ext = "fixed_externals ''  <!DOCTYPE html><html></html>'' (Inl EmptyDataError)"
  have s: "py_strip ''  <!DOCTYPE html><html></html>'' = ''<!DOCTYPE html><html></html>''"
    by code_simp
  have h: "requests_get ?ext (csv_url_of ''doc'' ''0'') = Inr ''  <!DOCTYPE html><html></html>''
     \<and> take (length ''<!DOCTYPE html>'') (py_strip ''  <!DOCTYPE html><html></html>'')
         = ''<!DOCTYPE html>''"
    by (simp add: fixed_externals_def s)
  from public_html_shell_gives_empty_table
         [of ?ext "''doc''" "''0''" "''  <!DOCTYPE html><html></html>''" None 1, THEN mp, OF h]
  show ?thesis .
qed

text \<open>
  The claim as written has the fetch fail instead of returning a table. On an HTML
  body the fetch returns: its result is the empty frame.
\<close>

theorem public_html_shell_returns_counterexample:
  "fetch_sheet_data (fixed_externals ''<!DOCTYPE html><html><body>Sign in</body></html>''
                       (Inl EmptyDataError)) None ''doc'' (Some ''S'') ''0'' 1
     = ([St_error (Error_processing ''S''
           (ValueError ''Sheet may not be publicly accessible. Received HTML instead of CSV.''))],
        Inr pd_DataFrame_empty)"
proof -
  have s: "py_strip ''<!DOCTYPE html><html><body>Sign in</body></html>''
      = ''<!DOCTYPE html><html><body>Sign in</body></html>''"
    by code_simp
  show ?thesis
    by (simp add: fetch_sheet_data_def fetch_public_def fixed_externals_def s py_or_def)
qed

section \<open>Combining\<close>

lemma set_first_seen: "set (first_seen seen xs) = set xs - set seen"
proof (induction xs arbitrary: seen)
  case Nil
  then show ?case by simp
next
  case (Cons x xs)
  show ?case
  proof (cases "x \<in> set seen")
    case True
    then show ?thesis using Cons.IH [of seen] by auto
  next
    case False
    then show ?thesis using Cons.IH [of "seen @ [x]"] by auto
  qed
qed

lemma distinct_first_seen: "distinct (first_seen seen xs)"
proof (induction xs arbitrary: seen)
  case Nil
  then show ?case by simp
next
  case (Cons x xs)
  show ?case
  proof (cases "x \<in> set seen")
    case True
    then show ?thesis using Cons.IH [of seen] by simp
  next
    case False
    then show ?thesis using Cons.IH [of "seen @ [x]"] by (simp add: set_first_seen)
  qed
qed

lemma index_of_nth_distinct: "distinct ys \<Longrightarrow> i < length ys \<Longrightarrow> index_of (ys ! i) ys = Some i"
proof (induction ys arbitrary: i)
  case Nil
  then show ?case by simp
next
  case (Cons y ys)
  show ?case
  proof (cases i)
    case 0
    then show ?thesis by simp
  next
    case (Suc j)
    with Cons.prems have "ys ! j \<noteq> y" "j < length ys" by auto
    with Cons Suc show ?thesis by simp
  qed
qed

lemma cell_at_present:
  "distinct cols \<Longrightarrow> length r = length cols \<Longrightarrow> i < length cols \<Longrightarrow>
     cell_at cols r (cols ! i) = r ! i"
  by (simp add: cell_at_def index_of_nth_distinct)

lemma pd_concat_ok:
  assumes ne: "frames \<noteq> []" and ok: "\<forall>df\<in>set frames. frame_ok df"
  shows "pd_concat frames =
     Inr \<lparr>columns = first_seen [] (concat (map columns frames)),
          rows = concat (map (reindex frames (first_seen [] (concat (map columns frames))))
                          frames)\<rparr>"
proof -
  have "list_all (\<lambda>df. distinct (columns df)) frames"
    using ok by (simp add: list_all_iff frame_ok_def)
  with ne show ?thesis by (simp add: pd_concat_def Let_def)
qed

lemma astype_Int: "astype k (Integer n) = (if k = Float64 then Float (Float_of_int n) else Integer n)"
  by (cases k) simp_all

lemma astype_other:
  "astype k (Str s) = Str s" "astype k (Bool b) = Bool b" "astype k (Float f) = Float f"
  "astype k NaN = NaN"
  by (cases k; simp)+

lemma find_common_type_same: "ks \<noteq> [] \<Longrightarrow> \<forall>k\<in>set ks. k = d \<Longrightarrow> find_common_type ks = d"
  by (cases ks) (simp_all add: list_all_iff)

lemma concat_dtype_Int_with_gap:
  assumes ints: "\<forall>df\<in>set frames. c \<in> set (columns df) \<longrightarrow> dtype_of (column_cells df c) = Int64"
    and some: "\<exists>df\<in>set frames. c \<in> set (columns df)"
    and gap: "\<exists>df\<in>set frames. c \<notin> set (columns df)"
  shows "concat_dtype frames c = Float64"
proof -
  let ?having = "filter (\<lambda>df. c \<in> set (columns df)) frames"
  let ?ks = "map (\<lambda>df. dtype_of (column_cells df c)) ?having"
  from some have "?having \<noteq> []" by (simp add: filter_empty_conv)
  then have ne: "?ks \<noteq> []" by simp
  have "\<forall>k\<in>set ?ks. k = Int64" using ints by auto
  with ne have "find_common_type ?ks = Int64" by (rule find_common_type_same)
  moreover from gap have "list_ex (\<lambda>df. c \<notin> set (columns df)) frames"
    by (simp add: list_ex_iff)
  ultimately show ?thesis by (simp add: concat_dtype_def)
qed

lemma concat_dtype_Object:
  assumes "\<forall>df\<in>set frames. c \<in> set (columns df) \<longrightarrow> dtype_of (column_cells df c) = Object"
  shows "concat_dtype frames c = Object"
proof -
  let ?ks = "map (\<lambda>df. dtype_of (column_cells df c)) (filter (\<lambda>df. c \<in> set (columns df)) frames)"
  have all: "\<forall>k\<in>set ?ks. k = Object" using assms by auto
  have "find_common_type ?ks = Object"
  proof (cases "?ks = []")
    case True
    then show ?thesis by simp
  next
    case False
    then show ?thesis using all by (rule find_common_type_same)
  qed
  then show ?thesis by (simp add: concat_dtype_def)
qed

lemma pd_concat_public_example:
  "pd_concat [entry_data example_public_AB, entry_data example_public_BC]
     = Inr \<lparr>columns = [''A'', ''B'', ''_source_sheet'', ''C''],
             rows = [[Float (Float_of_int 1), Integer 2, Str ''S1'', NaN],
                     [NaN, Integer 3, Str ''S2'', Float (Float_of_int 4)]]\<rparr>"
  by code_simp

lemma pd_concat_text_example:
  "pd_concat [entry_data example_sheet_AB, entry_data example_sheet_BC]
     = Inr \<lparr>columns = [''A'', ''B'', ''C''],
             rows = [[Str ''1'', Str ''2'', NaN], [NaN, Str ''3'', Str ''4'']]\<rparr>"
  by code_simp

text \<open>
  Claim C1, as amended. For a combiner holding at least one entry, all of whose frames
  have distinct column labels, one cell per column and at least one row (\<open>add_sheet\<close>
  keeps no frame without rows), \<open>combine_sheets\<close> returns (and
  stores) the frame whose columns are the distinct labels of all entries in order of
  first appearance and whose rows are the entries' rows in insertion order, each
  reindexed to those columns. Under a column its sheet lacks, a row holds the missing
  value \<^verbatim>\<open>NaN\<close>, which is not the empty string. Under a column its sheet has, a
  row holds its own cell cast to the column's common dtype: a text, a boolean, a float
  and a missing value stay as they are, and an integer stays unless the common dtype
  is \<^verbatim>\<open>float64\<close>, which it is when every sheet that has the column holds integers
  in it and some sheet lacks it. A column that holds texts wherever it occurs has the
  dtype \<^verbatim>\<open>object\<close>, so sheets fetched on the authenticated channel keep every cell.
  Two public-channel sheets with the integer columns A, B and B, C combine to the
  columns A, B, \<^verbatim>\<open>_source_sheet\<close>, C with the rows 1.0, 2, S1, NaN and
  NaN, 3, S2, 4.0.
\<close>

theorem combine_concatenates_with_missing_cells:
  "(sheets_data self \<noteq> [] \<and> list_all (\<lambda>e. frame_ok (entry_data e) \<and> rows (entry_data e) \<noteq> []) (sheets_data self) \<longrightarrow>
     combine_sheets self
       = Inr (self\<lparr>combined_data :=
                \<lparr>columns = first_seen [] (concat (map (\<lambda>e. columns (entry_data e)) (sheets_data self))),
                 rows = concat (map (\<lambda>e. reindex (map entry_data (sheets_data self))
                          (first_seen [] (concat (map (\<lambda>e. columns (entry_data e)) (sheets_data self))))
                          (entry_data e)) (sheets_data self))\<rparr>\<rparr>,
              \<lparr>columns = first_seen [] (concat (map (\<lambda>e. columns (entry_data e)) (sheets_data self))),
               rows = concat (map (\<lambda>e. reindex (map entry_data (sheets_data self))
                        (first_seen [] (concat (map (\<lambda>e. columns (entry_data e)) (sheets_data self))))
                        (entry_data e)) (sheets_data self))\<rparr>)
     \<and> distinct (first_seen [] (concat (map (\<lambda>e. columns (entry_data e)) (sheets_data self))))
     \<and> set (first_seen [] (concat (map (\<lambda>e. columns (entry_data e)) (sheets_data self))))
         = (\<Union>e\<in>set (sheets_data self). set (columns (entry_data e)))
     \<and> (\<forall>e\<in>set (sheets_data self). \<forall>r\<in>set (rows (entry_data e)).
           \<forall>i<length (columns (entry_data e)).
             cell_at (columns (entry_data e)) r (columns (entry_data e) ! i) = r ! i))
   \<and> reindex frames new_cols df
       = map (\<lambda>r. map (\<lambda>c. if c \<in> set (columns df)
                            then astype (concat_dtype frames c) (cell_at (columns df) r c)
                            else NaN)
                      new_cols)
             (rows df)
   \<and> astype k (Str s) = Str s \<and> astype k (Bool b) = Bool b \<and> astype k (Float f) = Float f
   \<and> astype k NaN = NaN
   \<and> astype k (Integer n) = (if k = Float64 then Float (Float_of_int n) else Integer n)
   \<and> ((\<forall>df\<in>set frames. c \<in> set (columns df) \<longrightarrow> dtype_of (column_cells df c) = Int64)
        \<and> (\<exists>df\<in>set frames. c \<in> set (columns df)) \<and> (\<exists>df\<in>set frames. c \<notin> set (columns df))
        \<longrightarrow> concat_dtype frames c = Float64)
   \<and> ((\<forall>df\<in>set frames. c \<in> set (columns df) \<longrightarrow> dtype_of (column_cells df c) = Object)
        \<longrightarrow> concat_dtype frames c = Object)
   \<and> pd_concat [entry_data example_public_AB, entry_data example_public_BC]
       = Inr \<lparr>columns = [''A'', ''B'', ''_source_sheet'', ''C''],
               rows = [[Float (Float_of_int 1), Integer 2, Str ''S1'', NaN],
                       [NaN, Integer 3, Str ''S2'', Float (Float_of_int 4)]]\<rparr>"
proof (intro conjI impI ballI allI)
  assume a: "sheets_data self \<noteq> [] \<and> list_all (\<lambda>e. frame_ok (entry_data e) \<and> rows (entry_data e) \<noteq> []) (sheets_data self)"
  let ?frames = "map entry_data (sheets_data self)"
  have ne: "?frames \<noteq> []" using a by simp
  have ok: "\<forall>df\<in>set ?frames. frame_ok df" using a by (simp add: list_all_iff)
  have m: "map columns ?frames = map (\<lambda>e. columns (entry_data e)) (sheets_data self)"
    by simp
  have r: "\<And>cs. map (reindex ?frames cs) ?frames
             = map (\<lambda>e. reindex ?frames cs (entry_data e)) (sheets_data self)"
    by simp
  from pd_concat_ok [OF ne ok]
  have "pd_concat ?frames =
     Inr \<lparr>columns = first_seen [] (concat (map (\<lambda>e. columns (entry_data e)) (sheets_data self))),
          rows = concat (map (\<lambda>e. reindex ?frames
                   (first_seen [] (concat (map (\<lambda>e. columns (entry_data e)) (sheets_data self))))
                   (entry_data e)) (sheets_data self))\<rparr>"
    by (simp only: m r)
  then show "combine_sheets self
       = Inr (self\<lparr>combined_data :=
                \<lparr>columns = first_seen [] (concat (map (\<lambda>e. columns (entry_data e)) (sheets_data self))),
                 rows = concat (map (\<lambda>e. reindex (map entry_data (sheets_data self))
                          (first_seen [] (concat (map (\<lambda>e. columns (entry_data e)) (sheets_data self))))
                          (entry_data e)) (sheets_data self))\<rparr>\<rparr>,
              \<lparr>columns = first_seen [] (concat (map (\<lambda>e. columns (entry_data e)) (sheets_data self))),
               rows = concat (map (\<lambda>e. reindex (map entry_data (sheets_data self))
                        (first_seen [] (concat (map (\<lambda>e. columns (entry_data e)) (sheets_data self))))
                        (entry_data e)) (sheets_data self))\<rparr>)"
    using a by (simp add: combine_sheets_def)
next
  show "distinct (first_seen [] (concat (map (\<lambda>e. columns (entry_data e)) (sheets_data self))))"
    by (rule distinct_first_seen)
next
  show "set (first_seen [] (concat (map (\<lambda>e. columns (entry_data e)) (sheets_data self))))
         = (\<Union>e\<in>set (sheets_data self). set (columns (entry_data e)))"
    by (simp add: set_first_seen)
next
  fix e r i
  assume a: "sheets_data self \<noteq> [] \<and> list_all (\<lambda>e. frame_ok (entry_data e) \<and> rows (entry_data e) \<noteq> []) (sheets_data self)"
    and e: "e \<in> set (sheets_data self)" and r: "r \<in> set (rows (entry_data e))"
    and i: "i < length (columns (entry_data e))"
  from a e have "frame_ok (entry_data e)" by (simp add: list_all_iff)
  with r have "distinct (columns (entry_data e))" "length r = length (columns (entry_data e))"
    by (simp_all add: frame_ok_def list_all_iff)
  then show "cell_at (columns (entry_data e)) r (columns (entry_data e) ! i) = r ! i"
    using i by (rule cell_at_present)
next
  show "reindex frames new_cols df
       = map (\<lambda>r. map (\<lambda>c. if c \<in> set (columns df)
                            then astype (concat_dtype frames c) (cell_at (columns df) r c)
                            else NaN)
                      new_cols)
             (rows df)"
    by (simp add: reindex_def)
next
  show "astype k (Str s) = Str s" "astype k (Bool b) = Bool b" "astype k (Float f) = Float f"
    "astype k NaN = NaN"
    by (rule astype_other)+
next
  show "astype k (Integer n) = (if k = Float64 then Float (Float_of_int n) else Integer n)"
    by (rule astype_Int)
next
  assume "(\<forall>df\<in>set frames. c \<in> set (columns df) \<longrightarrow> dtype_of (column_cells df c) = Int64)
        \<and> (\<exists>df\<in>set frames. c \<in> set (columns df)) \<and> (\<exists>df\<in>set frames. c \<notin> set (columns df))"
  then show "concat_dtype frames c = Float64"
    by (intro concat_dtype_Int_with_gap) simp_all
next
  assume "\<forall>df\<in>set frames. c \<in> set (columns df) \<longrightarrow> dtype_of (column_cells df c) = Object"
  then show "concat_dtype frames c = Object" by (rule concat_dtype_Object)
next
  show "pd_concat [entry_data example_public_AB, entry_data example_public_BC]
       = Inr \<lparr>columns = [''A'', ''B'', ''_source_sheet'', ''C''],
               rows = [[Float (Float_of_int 1), Integer 2, Str ''S1'', NaN],
                       [NaN, Integer 3, Str ''S2'', Float (Float_of_int 4)]]\<rparr>"
    by (rule pd_concat_public_example)
qed

theorem combine_concatenates_with_missing_cells_witness:
  "combine_sheets (init_combiner\<lparr>sheets_data := [example_public_AB, example_public_BC]\<rparr>)
     = Inr (init_combiner\<lparr>sheets_data := [example_public_AB, example_public_BC],
               combined_data :=
                 \<lparr>columns = [''A'', ''B'', ''_source_sheet'', ''C''],
                  rows = [[Float (Float_of_int 1), Integer 2, Str ''S1'', NaN],
                          [NaN, Integer 3, Str ''S2'', Float (Float_of_int 4)]]\<rparr>\<rparr>,
            \<lparr>columns = [''A'', ''B'', ''_source_sheet'', ''C''],
             rows = [[Float (Float_of_int 1), Integer 2, Str ''S1'', NaN],
                     [NaN, Integer 3, Str ''S2'', Float (Float_of_int 4)]]\<rparr>)"
proof -
  let ?st = "init_combiner\<lparr>sheets_data := [example_public_AB, example_public_BC]\<rparr>"
  have h: "sheets_data ?st \<noteq> [] \<and> list_all (\<lambda>e. frame_ok (entry_data e) \<and> rows (entry_data e) \<noteq> []) (sheets_data ?st)"
    by (simp add: example_public_AB_def example_public_BC_def frame_ok_def)
  have c: "first_seen [] (concat (map (\<lambda>e. columns (entry_data e)) (sheets_data ?st)))
             = [''A'', ''B'', ''_source_sheet'', ''C'']"
    by (simp add: example_public_AB_def example_public_BC_def)
  have r: "concat (map (\<lambda>e. reindex (map entry_data (sheets_data ?st))
                           [''A'', ''B'', ''_source_sheet'', ''C''] (entry_data e))
                      (sheets_data ?st))
             = [[Float (Float_of_int 1), Integer 2, Str ''S1'', NaN],
                [NaN, Integer 3, Str ''S2'', Float (Float_of_int 4)]]"
  proof -
    have "concat (map (reindex [entry_data example_public_AB, entry_data example_public_BC]
                         [''A'', ''B'', ''_source_sheet'', ''C''])
                    [entry_data example_public_AB, entry_data example_public_BC])
             = [[Float (Float_of_int 1), Integer 2, Str ''S1'', NaN],
                [NaN, Integer 3, Str ''S2'', Float (Float_of_int 4)]]"
      by code_simp
    then show ?thesis by simp
  qed
  from combine_concatenates_with_missing_cells
         [of ?st, THEN conjunct1, THEN mp, OF h, THEN conjunct1]
  show ?thesis by (simp only: c r)
qed

text \<open>
  Sheets with the text columns A, B and B, C: the combined columns are A, B, C, and
  the cells the claim calls empty strings are \<^verbatim>\<open>NaN\<close>.
\<close>

theorem combine_missing_cell_is_NaN_counterexample:
  "combine_sheets (init_combiner\<lparr>sheets_data := [example_sheet_AB, example_sheet_BC]\<rparr>)
     = Inr (init_combiner\<lparr>sheets_data := [example_sheet_AB, example_sheet_BC],
               combined_data := \<lparr>columns = [''A'', ''B'', ''C''],
                                  rows = [[Str ''1'', Str ''2'', NaN], [NaN, Str ''3'', Str ''4'']]\<rparr>\<rparr>,
            \<lparr>columns = [''A'', ''B'', ''C''],
             rows = [[Str ''1'', Str ''2'', NaN], [NaN, Str ''3'', Str ''4'']]\<rparr>)
   \<and> NaN \<noteq> Str ''''"
  using pd_concat_text_example by (simp add: combine_sheets_def)

section \<open>The summary\<close>

text \<open>
  Claim C6, as amended. The column list, the total row count and the total column
  count of \<open>get_summary\<close> are those of \<open>combined_data\<close>, the frame stored by the last
  successful \<open>combine_sheets\<close> (the empty frame before any). Right after a successful
  \<open>combine_sheets\<close> they describe the combination of the held entries; \<open>add_sheet\<close>
  and removal leave them as they were. The per-sheet display name, row count and
  header row are read from the entries held at the time of the call.
\<close>

theorem summary_reports_last_combination:
  "(combine_sheets self = Inr (self', df) \<longrightarrow>
      sheets_data self' = sheets_data self
      \<and> pd_concat (map entry_data (sheets_data self')) = Inr df
      \<and> summary_columns (get_summary self') = columns df
      \<and> total_rows (get_summary self') = length (rows df)
      \<and> total_columns (get_summary self') = length (columns df))
   \<and> (add_sheet ext self sheet_id info header_row custom_name = (notes, self2, added) \<longrightarrow>
      summary_columns (get_summary self2) = summary_columns (get_summary self)
      \<and> total_rows (get_summary self2) = total_rows (get_summary self)
      \<and> total_columns (get_summary self2) = total_columns (get_summary self))
   \<and> (remove_sheet self i = Inr self3 \<longrightarrow>
      summary_columns (get_summary self3) = summary_columns (get_summary self)
      \<and> total_rows (get_summary self3) = total_rows (get_summary self)
      \<and> total_columns (get_summary self3) = total_columns (get_summary self))
   \<and> summary_columns (get_summary self) = columns (combined_data self)
   \<and> total_rows (get_summary self) = length (rows (combined_data self))
   \<and> total_columns (get_summary self) = length (columns (combined_data self))
   \<and> map stat_name (sheets (get_summary self)) = map entry_display_name (sheets_data self)
   \<and> map stat_rows (sheets (get_summary self))
       = map (\<lambda>e. length (rows (entry_data e))) (sheets_data self)
   \<and> map stat_header_row (sheets (get_summary self)) = map entry_header_row (sheets_data self)"
proof (intro conjI impI)
  assume c: "combine_sheets self = Inr (self', df)"
  then have ne: "sheets_data self \<noteq> []"
    by (auto simp: combine_sheets_def split: if_splits)
  from c ne have p: "pd_concat (map entry_data (sheets_data self)) = Inr df"
    and s: "self' = self\<lparr>combined_data := df\<rparr>"
    by (auto simp: combine_sheets_def split: sum.splits)
  from s show "sheets_data self' = sheets_data self" by simp
  from p s show "pd_concat (map entry_data (sheets_data self')) = Inr df" by simp
  from s show "summary_columns (get_summary self') = columns df" by (simp add: get_summary_def)
  from s show "total_rows (get_summary self') = length (rows df)" by (simp add: get_summary_def)
  from s show "total_columns (get_summary self') = length (columns df)"
    by (simp add: get_summary_def)
next
  assume "add_sheet ext self sheet_id info header_row custom_name = (notes, self2, added)"
  then have "combined_data self2 = combined_data self"
    by (auto simp: add_sheet_def Let_def split: prod.splits sum.splits if_splits)
  then show "summary_columns (get_summary self2) = summary_columns (get_summary self)"
    and "total_rows (get_summary self2) = total_rows (get_summary self)"
    and "total_columns (get_summary self2) = total_columns (get_summary self)"
    by (simp_all add: get_summary_def)
next
  assume "remove_sheet self i = Inr self3"
  then have "combined_data self3 = combined_data self"
    by (auto simp: remove_sheet_def split: sum.splits)
  then show "summary_columns (get_summary self3) = summary_columns (get_summary self)"
    and "total_rows (get_summary self3) = total_rows (get_summary self)"
    and "total_columns (get_summary self3) = total_columns (get_summary self)"
    by (simp_all add: get_summary_def)
qed (simp_all add: get_summary_def comp_def)

theorem summary_reports_last_combination_witness:
  "summary_columns (get_summary
       (init_combiner\<lparr>sheets_data := [example_sheet_AB, example_sheet_BC],
          combined_data := \<lparr>columns = [''A'', ''B'', ''C''],
                             rows = [[Str ''1'', Str ''2'', NaN], [NaN, Str ''3'', Str ''4'']]\<rparr>\<rparr>))
     = [''A'', ''B'', ''C'']
   \<and> total_rows (get_summary
       (init_combiner\<lparr>sheets_data := [example_sheet_AB, example_sheet_BC],
          combined_data := \<lparr>columns = [''A'', ''B'', ''C''],
                             rows = [[Str ''1'', Str ''2'', NaN], [NaN, Str ''3'', Str ''4'']]\<rparr>\<rparr>))
     = 2"
proof -
  let ?st = "init_combiner\<lparr>sheets_data := [example_sheet_AB, example_sheet_BC]\<rparr>"
  let ?df = "\<lparr>columns = [''A'', ''B'', ''C''],
              rows = [[Str ''1'', Str ''2'', NaN], [NaN, Str ''3'', Str ''4'']]\<rparr>"
  have "pd_concat [entry_data example_sheet_AB, entry_data example_sheet_BC] = Inr ?df"
    by (rule pd_concat_text_example)
  then have h: "combine_sheets ?st = Inr (?st\<lparr>combined_data := ?df\<rparr>, ?df)"
    by (simp add: combine_sheets_def)
  from summary_reports_last_combination [of ?st "?st\<lparr>combined_data := ?df\<rparr>" ?df,
         THEN conjunct1, THEN mp, OF h]
  show ?thesis by simp
qed

text \<open>
  One sheet is added to a fresh combiner and \<open>combine_sheets\<close> is not called: the
  summary reports no columns and no rows, while the combination of the held sheet has
  three columns and one row.
\<close>

theorem summary_after_add_is_stale_counterexample:
  "add_sheet example_csv_externals init_combiner ''doc''
       \<lparr>info_gid = ''0'', info_name = Some ''S1''\<rparr> 1 None
     = ([],
        init_combiner\<lparr>sheets_data :=
          [\<lparr>entry_id = ''doc'', entry_gid = ''0'', entry_name = Some ''S1'',
            entry_display_name = Some ''S1'',
            entry_data = \<lparr>columns = [''A'', ''B'', ''_source_sheet''],
                           rows = [[Integer 1, Integer 2, Str ''S1'']]\<rparr>,
            entry_header_row = 1\<rparr>]\<rparr>,
        True)
   \<and> total_rows (get_summary (init_combiner\<lparr>sheets_data :=
          [\<lparr>entry_id = ''doc'', entry_gid = ''0'', entry_name = Some ''S1'',
            entry_display_name = Some ''S1'',
            entry_data = \<lparr>columns = [''A'', ''B'', ''_source_sheet''],
                           rows = [[Integer 1, Integer 2, Str ''S1'']]\<rparr>,
            entry_header_row = 1\<rparr>]\<rparr>)) = 0
   \<and> summary_columns (get_summary (init_combiner\<lparr>sheets_data :=
          [\<lparr>entry_id = ''doc'', entry_gid = ''0'', entry_name = Some ''S1'',
            entry_display_name = Some ''S1'',
            entry_data = \<lparr>columns = [''A'', ''B'', ''_source_sheet''],
                           rows = [[Integer 1, Integer 2, Str ''S1'']]\<rparr>,
            entry_header_row = 1\<rparr>]\<rparr>)) = []
   \<and> pd_concat (map entry_data (sheets_data (init_combiner\<lparr>sheets_data :=
          [\<lparr>entry_id = ''doc'', entry_gid = ''0'', entry_name = Some ''S1'',
            entry_display_name = Some ''S1'',
            entry_data = \<lparr>columns = [''A'', ''B'', ''_source_sheet''],
                           rows = [[Integer 1, Integer 2, Str ''S1'']]\<rparr>,
            entry_header_row = 1\<rparr>]\<rparr>)))
       = Inr \<lparr>columns = [''A'', ''B'', ''_source_sheet''],
               rows = [[Integer 1, Integer 2, Str ''S1'']]\<rparr>"
proof (intro conjI)
  have s: "take (length ''<!DOCTYPE html>'') (py_strip example_csv_body) \<noteq> ''<!DOCTYPE html>''"
    by code_simp
  have f: "fetch_sheet_data example_csv_externals None ''doc'' (Some ''S1'') ''0'' 1
      = ([], Inr \<lparr>columns = [''A'', ''B'', ''_source_sheet''],
                  rows = [[Integer 1, Integer 2, Str ''S1'']]\<rparr>)"
    using s
    by (simp add: fetch_sheet_data_def fetch_public_def example_csv_externals_def
                  fixed_externals_def Let_def setitem_def source_sheet_def py_or_def)
  show "add_sheet example_csv_externals init_combiner ''doc''
       \<lparr>info_gid = ''0'', info_name = Some ''S1''\<rparr> 1 None
     = ([],
        init_combiner\<lparr>sheets_data :=
          [\<lparr>entry_id = ''doc'', entry_gid = ''0'', entry_name = Some ''S1'',
            entry_display_name = Some ''S1'',
            entry_data = \<lparr>columns = [''A'', ''B'', ''_source_sheet''],
                           rows = [[Integer 1, Integer 2, Str ''S1'']]\<rparr>,
            entry_header_row = 1\<rparr>]\<rparr>,
        True)"
    by (simp add: add_sheet_def init_combiner_def f df_empty_def Let_def)
next
  have "pd_concat [\<lparr>columns = [''A'', ''B'', ''_source_sheet''],
                     rows = [[Integer 1, Integer 2, Str ''S1'']]\<rparr>]
      = Inr \<lparr>columns = [''A'', ''B'', ''_source_sheet''],
              rows = [[Integer 1, Integer 2, Str ''S1'']]\<rparr>"
    by code_simp
  then show "pd_concat (map entry_data (sheets_data (init_combiner\<lparr>sheets_data :=
          [\<lparr>entry_id = ''doc'', entry_gid = ''0'', entry_name = Some ''S1'',
            entry_display_name = Some ''S1'',
            entry_data = \<lparr>columns = [''A'', ''B'', ''_source_sheet''],
                           rows = [[Integer 1, Integer 2, Str ''S1'']]\<rparr>,
            entry_header_row = 1\<rparr>]\<rparr>)))
       = Inr \<lparr>columns = [''A'', ''B'', ''_source_sheet''],
               rows = [[Integer 1, Integer 2, Str ''S1'']]\<rparr>"
    by simp
qed (simp_all add: get_summary_def init_combiner_def pd_DataFrame_empty_def)

end
